theory Spec2Isabelle
  imports Main "HOL-Library.Word"
begin

unbundle bit_operations_syntax

section \<open>Shared vocabulary of the two nodes\<close>

text \<open>
  The game runs on two ESP32 boards. The manager (the Coordinator of the specification)
  owns difficulty, sequence and progress; the remote (the Controller) sends the player's
  button presses and shows the outcome. Each board has its firmware source
  (\<open>esp32-guessing-game-manager/src/main.cpp\<close>, \<open>esp32-guessing-game-remote/src/main.cpp\<close>)
  and a second revision of it (\<open>unnamed/part_000\<close> for the manager, \<open>unnamed/part_001\<close> for
  the remote). All four are embedded below, function by function, over one record of the
  globals per file.

  Conventions of the embedding:
  \<^item> \<open>uint8_t\<close> is \<open>8 word\<close>, \<open>uint32_t\<close> and the value of \<open>millis()\<close> are \<open>32 word\<close>;
    subtraction of clock readings wraps as in C.
  \<^item> Everything a function does to the outside (serial output, radio sends, pin writes,
    blocking delays) is appended to the \<open>trace\<close> field of the record, in program order.
  \<^item> What a function reads from the outside (the clock, the button pin, the result of
    \<open>esp_now_send\<close>, the raw values of the random generator) is a parameter. All
    \<open>millis()\<close> readings of one invocation are the one parameter \<open>now\<close>.
  \<^item> An array access outside the declared bounds is undefined behaviour in C++; the model
    returns \<open>Inl (OutOfBounds i)\<close> instead of a state.
  \<^item> Handlers (the polling loop, the receive and send callbacks, the button interrupt)
    are atomic steps; preemption inside a handler is not modelled.
\<close>

type_synonym u8 = "8 word"
type_synonym u32 = "32 word"

datatype effect =
    Print string
  | PrintNum nat
  | Send u8
  | Delay nat
  | DigitalWrite nat bool
  | AnalogWrite nat int

datatype error = OutOfBounds nat

text \<open>The radio bytes a trace sends, in order.\<close>

fun sent :: "effect list \<Rightarrow> u8 list" where
  "sent [] = []"
| "sent (Send b # es) = b # sent es"
| "sent (e # es) = sent es"

definition CMD_GAME_START :: u8 where "CMD_GAME_START = 0x01"
definition CMD_GOOD_GUESS :: u8 where "CMD_GOOD_GUESS = 0x02"
definition CMD_WRONG_GUESS :: u8 where "CMD_WRONG_GUESS = 0x03"
definition CMD_GAME_WON :: u8 where "CMD_GAME_WON = 0x04"
definition CMD_CONFIRM :: u8 where "CMD_CONFIRM = 0x05"

text \<open>
  Modelled from the spec: the pseudo-random integer source (Arduino's
  \<open>random(howsmall, howbig)\<close>) is an external collaborator, not part of the repository;
  the spec describes its draws for \<open>generate\<close> as draws from 1, 2, 3. A draw reduces one
  raw value of the generator into the range from \<open>howsmall\<close> up to, not including,
  \<open>howbig\<close>.
\<close>

definition random_long :: "nat \<Rightarrow> int \<Rightarrow> int \<Rightarrow> int" where
  "random_long raw howsmall howbig =
     (if howsmall \<ge> howbig then howsmall
      else int raw mod (howbig - howsmall) + howsmall)"

section \<open>The manager: esp32-guessing-game-manager/src/main.cpp\<close>

datatype States_manager = idle | countdown | playing | game_over

definition ledPins :: "nat list" where "ledPins = [17, 25, 4, 12]"
definition debounceDelay_manager :: u32 where "debounceDelay_manager = 50"
definition longPressDuration :: u32 where "longPressDuration = 2000"
definition maxSequenceLength :: nat where "maxSequenceLength = 15"

record manager =
  state :: States_manager
  difficulty :: u8
  difficultyLocked :: bool
  buttonInter :: bool
  longPressed :: bool
  shortPressed :: bool
  lastDebounceTime :: u32
  buttonPressStart :: u32
  sequence :: "u8 list"
  currentStep :: u8
  guess :: u8
  guessed :: bool
  trace :: "effect list"

text \<open>The globals as initialised, after a successful \<open>setup()\<close> (state \<open>idle\<close>).\<close>

definition init_manager :: manager where
  "init_manager =
     \<lparr> state = idle, difficulty = 0, difficultyLocked = False, buttonInter = True,
       longPressed = False, shortPressed = False, lastDebounceTime = 0,
       buttonPressStart = 0, sequence = replicate 15 0, currentStep = 0,
       guess = 0, guessed = False, trace = [] \<rparr>"

definition emit :: "effect list \<Rightarrow> manager \<Rightarrow> manager" where
  "emit es s = s\<lparr>trace := trace s @ es\<rparr>"

text \<open>\<open>sequence[i] = v\<close> and \<open>sequence[i]\<close> on the array \<open>uint8_t sequence[maxSequenceLength]\<close>.\<close>

definition seq_write :: "nat \<Rightarrow> u8 \<Rightarrow> manager \<Rightarrow> error + manager" where
  "seq_write i v s =
     (if i < maxSequenceLength then Inr (s\<lparr>sequence := (sequence s)[i := v]\<rparr>)
      else Inl (OutOfBounds i))"

definition seq_read :: "nat \<Rightarrow> manager \<Rightarrow> error + u8" where
  "seq_read i s =
     (if i < maxSequenceLength then Inr (sequence s ! i) else Inl (OutOfBounds i))"

definition onDataSent_manager :: "bool \<Rightarrow> manager \<Rightarrow> manager" where
  "onDataSent_manager success s =
     emit [Print ''Packet Send Status: '', Print (if success then ''Success'' else ''Fail'')] s"

definition displayDifficulty :: "manager \<Rightarrow> manager" where
  "displayDifficulty s =
     emit (map (\<lambda>i. DigitalWrite (ledPins ! i) (drop_bit i (difficulty s) AND 1 \<noteq> 0))
             [0, 1, 2, 3]) s"

text \<open>The loop \<open>for (int i = 0; i <= difficulty; ++i) sequence[i] = random(1, 4);\<close>.\<close>

function generateSequence_loop :: "(nat \<Rightarrow> nat) \<Rightarrow> nat \<Rightarrow> manager \<Rightarrow> error + manager" where
  "generateSequence_loop rnd i s =
     (if i \<le> unat (difficulty s) then
        (case seq_write i (word_of_int (random_long (rnd i) 1 4)) s of
           Inl e \<Rightarrow> Inl e
         | Inr s' \<Rightarrow> generateSequence_loop rnd (Suc i) s')
      else Inr s)"
  by pat_completeness auto
termination
  by (relation "measure (\<lambda>(rnd, i, s). Suc (unat (difficulty s)) - i)")
     (auto simp: seq_write_def split: if_splits)

declare generateSequence_loop.simps [simp del]

definition generateSequence :: "(nat \<Rightarrow> nat) \<Rightarrow> manager \<Rightarrow> error + manager" where
  "generateSequence rnd s =
     (case generateSequence_loop rnd 0 (emit [Print ''Generating random sequence''] s) of
        Inl e \<Rightarrow> Inl e
      | Inr s' \<Rightarrow> Inr (s'\<lparr>currentStep := 0\<rparr>))"

definition sendGameStart :: "manager \<Rightarrow> manager" where
  "sendGameStart s = emit [Print ''Sending game start command'', Send CMD_GAME_START] s"

text \<open>
  The receive callback of the manager. The payload is the list of received
  bytes; \<open>len\<close> is its length. The callback does not look at \<open>len\<close>; it reads
  \<open>incomingData[0]\<close>.
\<close>

definition onDataRecv_manager :: "u8 list \<Rightarrow> manager \<Rightarrow> error + manager" where
  "onDataRecv_manager incomingData s =
     (if state s \<noteq> playing then Inr s
      else (case incomingData of
              [] \<Rightarrow> Inl (OutOfBounds 0)
            | b # _ \<Rightarrow> Inr (s\<lparr>guessed := True, guess := b\<rparr>)))"

text \<open>\<open>buttonState\<close> is the level read from the pull-up pin: \<open>True\<close> (HIGH) is released.\<close>

definition updateButtonState :: "u32 \<Rightarrow> bool \<Rightarrow> manager \<Rightarrow> manager" where
  "updateButtonState now buttonState s =
     (if buttonState \<and> buttonPressStart s > 0 then
        (if now - buttonPressStart s \<ge> longPressDuration
         then emit [Print ''Long press detected!''] (s\<lparr>longPressed := True\<rparr>)
         else emit [Print ''Short press detected!''] (s\<lparr>shortPressed := True\<rparr>))
        \<lparr>buttonPressStart := 0\<rparr>
      else s\<lparr>buttonPressStart := (if \<not> buttonState then now else 0)\<rparr>)"

definition onButtonPress_manager :: "u32 \<Rightarrow> manager \<Rightarrow> manager" where
  "onButtonPress_manager currentMillis s =
     (if currentMillis - lastDebounceTime s > debounceDelay_manager
      then s\<lparr>lastDebounceTime := currentMillis, buttonInter := True\<rparr>
      else s)"

definition increaseDifficulty :: "manager \<Rightarrow> manager" where
  "increaseDifficulty s =
     (let s1 = s\<lparr>difficulty := of_nat ((unat (difficulty s) + 1) mod 16)\<rparr>
      in displayDifficulty
           (emit [Print ''New difficulty: '', PrintNum (unat (difficulty s1))] s1))"

definition treatGuess :: "manager \<Rightarrow> error + manager" where
  "treatGuess s0 =
     (let s = emit [Print ''Received guess: '', PrintNum (unat (guess s0))] s0 in
      case seq_read (unat (currentStep s)) s of
        Inl e \<Rightarrow> Inl e
      | Inr x \<Rightarrow>
          if guess s = x then
            (let s1 = s\<lparr>currentStep := currentStep s + 1\<rparr> in
             if currentStep s1 > difficulty s1
             then Inr ((emit [Send CMD_GAME_WON] s1)\<lparr>state := game_over\<rparr>)
             else Inr (emit [Send CMD_GOOD_GUESS] s1))
          else Inr ((emit [Send CMD_WRONG_GUESS] s)\<lparr>currentStep := 0\<rparr>))"

definition alertBlink :: "manager \<Rightarrow> manager" where
  "alertBlink s =
     emit (concat (replicate 3
             (map (\<lambda>p. DigitalWrite p True) ledPins @ [Delay 500] @
              map (\<lambda>p. DigitalWrite p False) ledPins @ [Delay 500]))) s"

text \<open>
  One iteration of \<open>loop()\<close>. \<open>now\<close> and \<open>pin\<close> are what \<open>millis()\<close> and
  \<open>digitalRead(buttonPin)\<close> return inside \<open>updateButtonState\<close>; \<open>rnd\<close> gives the raw
  values of the random generator.
\<close>

definition loop_manager :: "u32 \<Rightarrow> bool \<Rightarrow> (nat \<Rightarrow> nat) \<Rightarrow> manager \<Rightarrow> error + manager" where
  "loop_manager now pin rnd s =
     (case state s of
        idle \<Rightarrow>
          if buttonInter s then
            (let s1 = updateButtonState now pin s in
             if longPressed s1 then
               (case generateSequence rnd s1 of
                  Inl e \<Rightarrow> Inl e
                | Inr s2 \<Rightarrow>
                    Inr (s2\<lparr>state := countdown, longPressed := False, buttonInter := False\<rparr>))
             else if shortPressed s1 then
               Inr ((increaseDifficulty s1)\<lparr>shortPressed := False, buttonInter := False\<rparr>)
             else Inr (s1\<lparr>buttonInter := False\<rparr>))
          else Inr s
      | countdown \<Rightarrow>
          Inr ((sendGameStart (emit [Delay 1000] (alertBlink s)))\<lparr>state := playing\<rparr>)
      | playing \<Rightarrow>
          (let s1 = displayDifficulty s in
           if guessed s1 then treatGuess s1 else Inr s1)
      | game_over \<Rightarrow>
          Inr ((emit [Delay 3000] (alertBlink s))\<lparr>state := idle, difficultyLocked := False\<rparr>))"

text \<open>The events the manager reacts to, and runs of them.\<close>

datatype event_manager =
    Loop u32 bool "nat \<Rightarrow> nat"
  | Recv "u8 list"
  | ButtonEdge u32
  | SendDone bool

fun step_manager :: "event_manager \<Rightarrow> manager \<Rightarrow> error + manager" where
  "step_manager (Loop now pin rnd) s = loop_manager now pin rnd s"
| "step_manager (Recv incomingData) s = onDataRecv_manager incomingData s"
| "step_manager (ButtonEdge currentMillis) s = Inr (onButtonPress_manager currentMillis s)"
| "step_manager (SendDone success) s = Inr (onDataSent_manager success s)"

fun run_manager :: "event_manager list \<Rightarrow> manager \<Rightarrow> error + manager" where
  "run_manager [] s = Inr s"
| "run_manager (e # es) s =
     (case step_manager e s of Inl err \<Rightarrow> Inl err | Inr s' \<Rightarrow> run_manager es s')"

section \<open>The manager, second revision: unnamed/part_000\<close>

text \<open>
  The enumeration of states, the command bytes, \<open>ledPins\<close>, \<open>longPressDuration\<close> and
  \<open>maxSequenceLength\<close> are declared with the same values as in the manager.
  Here the interrupt routine measures the press and the receive callback verifies the
  guess itself.
\<close>

record manager_p0 =
  state_p0 :: States_manager
  difficulty_p0 :: u8
  difficultyLocked_p0 :: bool
  longPressDetected_p0 :: bool
  buttonPressed_p0 :: bool
  pressDuration_p0 :: u32
  buttonPressStart_p0 :: u32
  sequence_p0 :: "u8 list"
  currentStep_p0 :: u8
  trace_p0 :: "effect list"

definition init_manager_p0 :: manager_p0 where
  "init_manager_p0 =
     \<lparr> state_p0 = idle, difficulty_p0 = 0, difficultyLocked_p0 = False,
       longPressDetected_p0 = False, buttonPressed_p0 = False, pressDuration_p0 = 0,
       buttonPressStart_p0 = 0, sequence_p0 = replicate 15 0, currentStep_p0 = 0,
       trace_p0 = [] \<rparr>"

definition emit_p0 :: "effect list \<Rightarrow> manager_p0 \<Rightarrow> manager_p0" where
  "emit_p0 es s = s\<lparr>trace_p0 := trace_p0 s @ es\<rparr>"

definition seq_write_p0 :: "nat \<Rightarrow> u8 \<Rightarrow> manager_p0 \<Rightarrow> error + manager_p0" where
  "seq_write_p0 i v s =
     (if i < maxSequenceLength then Inr (s\<lparr>sequence_p0 := (sequence_p0 s)[i := v]\<rparr>)
      else Inl (OutOfBounds i))"

definition seq_read_p0 :: "nat \<Rightarrow> manager_p0 \<Rightarrow> error + u8" where
  "seq_read_p0 i s =
     (if i < maxSequenceLength then Inr (sequence_p0 s ! i) else Inl (OutOfBounds i))"

definition onDataSent_p0 :: "bool \<Rightarrow> manager_p0 \<Rightarrow> manager_p0" where
  "onDataSent_p0 success s =
     emit_p0 [Print ''Packet Send Status: '', Print (if success then ''Success'' else ''Fail'')] s"

definition displayDifficulty_p0 :: "manager_p0 \<Rightarrow> manager_p0" where
  "displayDifficulty_p0 s =
     emit_p0 (map (\<lambda>i. DigitalWrite (ledPins ! i) (drop_bit i (difficulty_p0 s) AND 1 \<noteq> 0))
                [0, 1, 2, 3]) s"

function generateSequence_loop_p0 ::
  "(nat \<Rightarrow> nat) \<Rightarrow> nat \<Rightarrow> manager_p0 \<Rightarrow> error + manager_p0" where
  "generateSequence_loop_p0 rnd i s =
     (if i \<le> unat (difficulty_p0 s) then
        (case seq_write_p0 i (word_of_int (random_long (rnd i) 1 4)) s of
           Inl e \<Rightarrow> Inl e
         | Inr s' \<Rightarrow> generateSequence_loop_p0 rnd (Suc i) s')
      else Inr s)"
  by pat_completeness auto
termination
  by (relation "measure (\<lambda>(rnd, i, s). Suc (unat (difficulty_p0 s)) - i)")
     (auto simp: seq_write_p0_def split: if_splits)

declare generateSequence_loop_p0.simps [simp del]

definition generateSequence_p0 :: "(nat \<Rightarrow> nat) \<Rightarrow> manager_p0 \<Rightarrow> error + manager_p0" where
  "generateSequence_p0 rnd s =
     (case generateSequence_loop_p0 rnd 0 (emit_p0 [Print ''Generating random sequence''] s) of
        Inl e \<Rightarrow> Inl e
      | Inr s' \<Rightarrow> Inr (s'\<lparr>currentStep_p0 := 0\<rparr>))"

definition sendGameStart_p0 :: "manager_p0 \<Rightarrow> manager_p0" where
  "sendGameStart_p0 s = emit_p0 [Print ''Sending game start command'', Send CMD_GAME_START] s"

text \<open>The receive callback: the length check, then the verification of the guess.\<close>

definition onDataRecv_p0 :: "u8 list \<Rightarrow> manager_p0 \<Rightarrow> error + manager_p0" where
  "onDataRecv_p0 incomingData s0 =
     (if state_p0 s0 \<noteq> playing \<or> length incomingData \<noteq> 1 then Inr s0
      else (case incomingData of
              [] \<Rightarrow> Inr s0
            | guess' # _ \<Rightarrow>
                (let s = emit_p0 [Print ''Received guess: '', PrintNum (unat guess')] s0 in
                 case seq_read_p0 (unat (currentStep_p0 s)) s of
                   Inl e \<Rightarrow> Inl e
                 | Inr x \<Rightarrow>
                     if guess' = x then
                       (let s1 = s\<lparr>currentStep_p0 := currentStep_p0 s + 1\<rparr> in
                        if currentStep_p0 s1 > difficulty_p0 s1
                        then Inr ((emit_p0 [Send CMD_GAME_WON] s1)\<lparr>state_p0 := game_over\<rparr>)
                        else Inr (emit_p0 [Send CMD_GOOD_GUESS] s1))
                     else Inr ((emit_p0 [Send CMD_WRONG_GUESS] s)\<lparr>currentStep_p0 := 0\<rparr>))))"

text \<open>The interrupt routine, on every edge; \<open>pin\<close> is the level it reads (LOW is pressed).\<close>

definition onButtonPress_p0 :: "u32 \<Rightarrow> bool \<Rightarrow> manager_p0 \<Rightarrow> manager_p0" where
  "onButtonPress_p0 now pin s =
     (if \<not> pin then s\<lparr>buttonPressed_p0 := True, buttonPressStart_p0 := now\<rparr>
      else s\<lparr>pressDuration_p0 := now - buttonPressStart_p0 s, buttonPressed_p0 := False\<rparr>)"

definition countdownBlink_p0 :: "manager_p0 \<Rightarrow> manager_p0" where
  "countdownBlink_p0 s =
     emit_p0 (concat (replicate 3
                (map (\<lambda>p. DigitalWrite p True) ledPins @ [Delay 200] @
                 map (\<lambda>p. DigitalWrite p False) ledPins @ [Delay 200]))) s"

text \<open>The first block of \<open>loop()\<close>: a finished press is consumed.\<close>

definition processPress_p0 :: "manager_p0 \<Rightarrow> manager_p0" where
  "processPress_p0 s =
     (if \<not> buttonPressed_p0 s \<and> pressDuration_p0 s > 0 then
        (if pressDuration_p0 s \<ge> longPressDuration then
           emit_p0 [Print ''Long press detected, difficulty locked'']
             (s\<lparr>difficultyLocked_p0 := True, longPressDetected_p0 := True\<rparr>)
         else if \<not> difficultyLocked_p0 s then
           (let s1 = s\<lparr>difficulty_p0 := of_nat ((unat (difficulty_p0 s) + 1) mod 16)\<rparr>
            in displayDifficulty_p0
                 (emit_p0 [Print ''Button short press, new difficulty: '',
                           PrintNum (unat (difficulty_p0 s1))] s1))
         else s)
        \<lparr>pressDuration_p0 := 0\<rparr>
      else s)"

definition loop_p0 :: "(nat \<Rightarrow> nat) \<Rightarrow> manager_p0 \<Rightarrow> error + manager_p0" where
  "loop_p0 rnd s0 =
     (let s = processPress_p0 s0 in
      case state_p0 s of
        idle \<Rightarrow>
          if longPressDetected_p0 s then
            (case generateSequence_p0 rnd s of
               Inl e \<Rightarrow> Inl e
             | Inr s1 \<Rightarrow>
                 Inr ((sendGameStart_p0 s1)\<lparr>state_p0 := countdown, longPressDetected_p0 := False\<rparr>))
          else Inr s
      | countdown \<Rightarrow> Inr ((countdownBlink_p0 s)\<lparr>state_p0 := playing\<rparr>)
      | playing \<Rightarrow> Inr (displayDifficulty_p0 s)
      | game_over \<Rightarrow>
          Inr (displayDifficulty_p0
                 ((emit_p0 [Delay 3000] s)\<lparr>state_p0 := idle, difficultyLocked_p0 := False\<rparr>)))"

datatype event_p0 =
    Loop_p0 "nat \<Rightarrow> nat"
  | Recv_p0 "u8 list"
  | ButtonEdge_p0 u32 bool
  | SendDone_p0 bool

fun step_p0 :: "event_p0 \<Rightarrow> manager_p0 \<Rightarrow> error + manager_p0" where
  "step_p0 (Loop_p0 rnd) s = loop_p0 rnd s"
| "step_p0 (Recv_p0 incomingData) s = onDataRecv_p0 incomingData s"
| "step_p0 (ButtonEdge_p0 now pin) s = Inr (onButtonPress_p0 now pin s)"
| "step_p0 (SendDone_p0 success) s = Inr (onDataSent_p0 success s)"

fun run_p0 :: "event_p0 list \<Rightarrow> manager_p0 \<Rightarrow> error + manager_p0" where
  "run_p0 [] s = Inr s"
| "run_p0 (e # es) s =
     (case step_p0 e s of Inl err \<Rightarrow> Inl err | Inr s' \<Rightarrow> run_p0 es s')"

section \<open>The remote: esp32-guessing-game-remote/src/main.cpp\<close>

datatype States_remote = ready | playing_r | guessed_r | correct | wrong | won

definition buttonsCount :: nat where "buttonsCount = 3"
definition debounceDelay_remote :: u32 where "debounceDelay_remote = 20"
definition redLed :: nat where "redLed = 12"
definition greenLed :: nat where "greenLed = 4"

record remote =
  state_r :: States_remote
  lastSentMessage :: u8
  startSignal :: bool
  rightGuess :: bool
  wrongGuess :: bool
  wonSignal :: bool
  buttonPressed :: "bool list"
  lastDebounceTime_r :: "u32 list"
  lastStateUpdate :: u32
  lastBreatheUpdate :: u32
  lastBlinkUpdate :: u32
  locked :: bool
  trace_r :: "effect list"

definition init_remote :: remote where
  "init_remote =
     \<lparr> state_r = ready, lastSentMessage = 0, startSignal = False, rightGuess = False,
       wrongGuess = False, wonSignal = False, buttonPressed = [False, False, False],
       lastDebounceTime_r = [0, 0, 0], lastStateUpdate = 0, lastBreatheUpdate = 0,
       lastBlinkUpdate = 0, locked = False, trace_r = [] \<rparr>"

definition emit_r :: "effect list \<Rightarrow> remote \<Rightarrow> remote" where
  "emit_r es s = s\<lparr>trace_r := trace_r s @ es\<rparr>"

text \<open>
  The loop \<open>while (status != ESP_NOW_SEND_SUCCESS && retries++ < 5)\<close> of the send
  callback. \<open>retries\<close> is a \<open>uint8_t\<close>: a natural number, incremented modulo 256. The
  increment \<open>retries++\<close> also happens when the comparison fails; it does not happen when
  the status is a success, because \<open>&&\<close> does not evaluate its right operand then. The
  result is the final value of \<open>retries\<close> and the state.
\<close>

function retry_loop :: "bool \<Rightarrow> nat \<Rightarrow> remote \<Rightarrow> nat \<times> remote" where
  "retry_loop success retries s =
     (if \<not> success then
        (if retries < 5
         then retry_loop success ((retries + 1) mod 256)
                (emit_r [Send (lastSentMessage s), Delay 100] s)
         else ((retries + 1) mod 256, s))
      else (retries, s))"
  by pat_completeness auto
termination
  by (relation "measure (\<lambda>(success, retries, s). 5 - retries)") auto

declare retry_loop.simps [simp del]

definition onDataSent_remote :: "bool \<Rightarrow> remote \<Rightarrow> remote" where
  "onDataSent_remote success s =
     (let s1 = emit_r [Print ''Last Packet Send Status: '',
                       Print (if success then ''Success'' else ''Fail'')] s;
          (retries, s2) = retry_loop success 0 s1
      in if retries = 5 then emit_r [Print ''Failed to send after 5 attempts''] s2 else s2)"

definition onDataRecv_remote :: "u8 list \<Rightarrow> remote \<Rightarrow> remote" where
  "onDataRecv_remote incomingData s =
     (if \<not> locked s then
        (if length incomingData \<noteq> 1 then s
         else (case incomingData of
                 [] \<Rightarrow> s
               | command # _ \<Rightarrow>
                   if command = CMD_GAME_START then s\<lparr>startSignal := True\<rparr>
                   else if command = CMD_GOOD_GUESS then s\<lparr>rightGuess := True\<rparr>
                   else if command = CMD_WRONG_GUESS then s\<lparr>wrongGuess := True\<rparr>
                   else if command = CMD_GAME_WON then s\<lparr>wonSignal := True\<rparr>
                   else s))
      else s)"

text \<open>
  The three interrupt routines call \<open>onButtonPress\<close> with index 0, 1 and 2; both arrays
  have \<open>buttonsCount\<close> elements.
\<close>

definition onButtonPress_remote :: "nat \<Rightarrow> u32 \<Rightarrow> remote \<Rightarrow> error + remote" where
  "onButtonPress_remote buttonIndex currentTime s =
     (if buttonIndex < buttonsCount then
        (if currentTime - lastDebounceTime_r s ! buttonIndex > debounceDelay_remote
         then Inr (s\<lparr>buttonPressed := (buttonPressed s)[buttonIndex := True],
                     lastDebounceTime_r := (lastDebounceTime_r s)[buttonIndex := currentTime]\<rparr>)
         else Inr s)
      else Inl (OutOfBounds buttonIndex))"

definition onButton1Press :: "u32 \<Rightarrow> remote \<Rightarrow> error + remote" where
  "onButton1Press = onButtonPress_remote 0"
definition onButton2Press :: "u32 \<Rightarrow> remote \<Rightarrow> error + remote" where
  "onButton2Press = onButtonPress_remote 1"
definition onButton3Press :: "u32 \<Rightarrow> remote \<Rightarrow> error + remote" where
  "onButton3Press = onButtonPress_remote 2"

text \<open>\<open>result_ok\<close> says whether \<open>esp_now_send\<close> returned \<open>ESP_OK\<close>.\<close>

definition sendButtonPress :: "nat \<Rightarrow> bool \<Rightarrow> remote \<Rightarrow> bool \<times> remote" where
  "sendButtonPress buttonIndex result_ok s =
     (let buttonCode = (of_nat (buttonIndex + 1) :: u8);
          s1 = emit_r [Send buttonCode] (s\<lparr>lastSentMessage := buttonCode\<rparr>)
      in if result_ok then (True, s1\<lparr>state_r := guessed_r\<rparr>)
         else (False, emit_r [Print ''Failed to send button press.''] s1))"

text \<open>
  The two intensities are computed in floating point from the clock; they are taken as
  the parameter \<open>pwm\<close>.
\<close>

definition breatheLeds :: "u32 \<Rightarrow> int \<times> int \<Rightarrow> remote \<Rightarrow> remote" where
  "breatheLeds now pwm s =
     (if now - lastBreatheUpdate s \<ge> 20
      then (emit_r [AnalogWrite redLed (fst pwm), AnalogWrite greenLed (snd pwm)] s)
             \<lparr>lastBreatheUpdate := now\<rparr>
      else s)"

text \<open>The body of the \<open>for\<close> loop of the \<open>playing\<close> case, for button \<open>i\<close>.\<close>

definition playing_button :: "u32 \<Rightarrow> (nat \<Rightarrow> bool) \<Rightarrow> nat \<Rightarrow> remote \<Rightarrow> remote" where
  "playing_button now send_ok i s =
     (if buttonPressed s ! i then
        (let (sendSuccess, s1) =
               sendButtonPress i (send_ok i) (s\<lparr>buttonPressed := (buttonPressed s)[i := False]\<rparr>)
         in if sendSuccess then
              (emit_r [Print ''Sent pressed signal for button '', PrintNum i] s1)
                \<lparr>state_r := guessed_r, lastStateUpdate := now\<rparr>
            else s1)
      else s)"

definition loop_remote :: "u32 \<Rightarrow> int \<times> int \<Rightarrow> (nat \<Rightarrow> bool) \<Rightarrow> remote \<Rightarrow> remote" where
  "loop_remote now pwm send_ok s =
     (case state_r s of
        ready \<Rightarrow>
          (let s1 = breatheLeds now pwm (s\<lparr>locked := False\<rparr>) in
           if startSignal s1 then
             (emit_r [Print ''The game starts !''] s1)
               \<lparr>startSignal := False, state_r := playing_r, lastStateUpdate := now\<rparr>
           else s1)
      | playing_r \<Rightarrow> fold (playing_button now send_ok) [0, 1, 2] (s\<lparr>locked := False\<rparr>)
      | guessed_r \<Rightarrow>
          if wonSignal s then
            (emit_r [Print ''Game won !''] (s\<lparr>wonSignal := False\<rparr>))
              \<lparr>state_r := won, lastStateUpdate := now, locked := True\<rparr>
          else if rightGuess s then
            (emit_r [Print ''Right guess !''] (s\<lparr>rightGuess := False\<rparr>))
              \<lparr>state_r := correct, lastStateUpdate := now, locked := True\<rparr>
          else if wrongGuess s then
            (emit_r [Print ''Wrong guess !''] (s\<lparr>wrongGuess := False\<rparr>))
              \<lparr>state_r := wrong, lastStateUpdate := now, locked := True\<rparr>
          else s
      | correct \<Rightarrow>
          (let s1 = emit_r [DigitalWrite greenLed True] s in
           if now - lastStateUpdate s1 > 2000 then
             (emit_r [DigitalWrite greenLed False]
                (s1\<lparr>state_r := playing_r, lastStateUpdate := now\<rparr>))\<lparr>locked := False\<rparr>
           else s1)
      | wrong \<Rightarrow>
          (let s1 = emit_r [DigitalWrite redLed True] s in
           if now - lastStateUpdate s1 > 2000 then
             (emit_r [DigitalWrite redLed False]
                (s1\<lparr>state_r := playing_r, lastStateUpdate := now\<rparr>))\<lparr>locked := False\<rparr>
           else s1)
      | won \<Rightarrow>
          (let s1 = emit_r [DigitalWrite redLed (now mod 2000 < 1000),
                            DigitalWrite greenLed (now mod 2000 < 1000)] s in
           if now - lastStateUpdate s1 > 10000 then
             (emit_r [Print ''Waiting for a new game start signal.'',
                      DigitalWrite greenLed False, DigitalWrite redLed False]
                (s1\<lparr>state_r := ready\<rparr>))\<lparr>locked := False\<rparr>
           else s1))"

section \<open>The remote, second revision: unnamed/part_001\<close>

text \<open>
  The enumeration of states, the pins and the constants are declared as in the current
  remote. Here the receive callback changes the state itself.
\<close>

record remote_p1 =
  state_p1 :: States_remote
  lastSentMessage_p1 :: u8
  buttonPressed_p1 :: "bool list"
  lastDebounceTime_p1 :: "u32 list"
  lastStateUpdate_p1 :: u32
  lastBreatheUpdate_p1 :: u32
  lastBlinkUpdate_p1 :: u32
  locked_p1 :: bool
  trace_p1 :: "effect list"

definition init_remote_p1 :: remote_p1 where
  "init_remote_p1 =
     \<lparr> state_p1 = ready, lastSentMessage_p1 = 0, buttonPressed_p1 = [False, False, False],
       lastDebounceTime_p1 = [0, 0, 0], lastStateUpdate_p1 = 0, lastBreatheUpdate_p1 = 0,
       lastBlinkUpdate_p1 = 0, locked_p1 = False, trace_p1 = [] \<rparr>"

definition emit_p1 :: "effect list \<Rightarrow> remote_p1 \<Rightarrow> remote_p1" where
  "emit_p1 es s = s\<lparr>trace_p1 := trace_p1 s @ es\<rparr>"

function retry_loop_p1 :: "bool \<Rightarrow> nat \<Rightarrow> remote_p1 \<Rightarrow> nat \<times> remote_p1" where
  "retry_loop_p1 success retries s =
     (if \<not> success then
        (if retries < 5
         then retry_loop_p1 success ((retries + 1) mod 256)
                (emit_p1 [Send (lastSentMessage_p1 s), Delay 100] s)
         else ((retries + 1) mod 256, s))
      else (retries, s))"
  by pat_completeness auto
termination
  by (relation "measure (\<lambda>(success, retries, s). 5 - retries)") auto

declare retry_loop_p1.simps [simp del]

definition onDataSent_p1 :: "bool \<Rightarrow> remote_p1 \<Rightarrow> remote_p1" where
  "onDataSent_p1 success s =
     (let s1 = emit_p1 [Print ''Last Packet Send Status: '',
                        Print (if success then ''Success'' else ''Fail'')] s;
          (retries, s2) = retry_loop_p1 success 0 s1
      in if retries = 5 then emit_p1 [Print ''Failed to send after 5 attempts''] s2 else s2)"

definition onButtonPress_p1 :: "nat \<Rightarrow> u32 \<Rightarrow> remote_p1 \<Rightarrow> error + remote_p1" where
  "onButtonPress_p1 buttonIndex currentTime s =
     (if buttonIndex < buttonsCount then
        (if currentTime - lastDebounceTime_p1 s ! buttonIndex > debounceDelay_remote
         then Inr (s\<lparr>buttonPressed_p1 := (buttonPressed_p1 s)[buttonIndex := True],
                     lastDebounceTime_p1 := (lastDebounceTime_p1 s)[buttonIndex := currentTime]\<rparr>)
         else Inr s)
      else Inl (OutOfBounds buttonIndex))"

definition sendButtonPress_p1 :: "nat \<Rightarrow> bool \<Rightarrow> remote_p1 \<Rightarrow> remote_p1" where
  "sendButtonPress_p1 buttonIndex result_ok s =
     (let buttonCode = (of_nat (buttonIndex + 1) :: u8);
          s1 = emit_p1 [Send buttonCode] (s\<lparr>lastSentMessage_p1 := buttonCode\<rparr>)
      in if result_ok then s1\<lparr>state_p1 := guessed_r\<rparr>
         else emit_p1 [Print ''Failed to send button press.''] s1)"

definition breatheLeds_p1 :: "u32 \<Rightarrow> int \<times> int \<Rightarrow> remote_p1 \<Rightarrow> remote_p1" where
  "breatheLeds_p1 now pwm s =
     (if now - lastBreatheUpdate_p1 s \<ge> 20
      then (emit_p1 [AnalogWrite redLed (fst pwm), AnalogWrite greenLed (snd pwm)] s)
             \<lparr>lastBreatheUpdate_p1 := now\<rparr>
      else s)"

definition playing_button_p1 :: "(nat \<Rightarrow> bool) \<Rightarrow> nat \<Rightarrow> remote_p1 \<Rightarrow> remote_p1" where
  "playing_button_p1 send_ok i s =
     (if buttonPressed_p1 s ! i
      then sendButtonPress_p1 i (send_ok i) (s\<lparr>buttonPressed_p1 := (buttonPressed_p1 s)[i := False]\<rparr>)
      else s)"

definition loop_p1 :: "u32 \<Rightarrow> int \<times> int \<Rightarrow> (nat \<Rightarrow> bool) \<Rightarrow> remote_p1 \<Rightarrow> remote_p1" where
  "loop_p1 now pwm send_ok s =
     (case state_p1 s of
        ready \<Rightarrow> breatheLeds_p1 now pwm s
      | playing_r \<Rightarrow> fold (playing_button_p1 send_ok) [0, 1, 2] s
      | guessed_r \<Rightarrow> s
      | correct \<Rightarrow>
          (let s1 = emit_p1 [DigitalWrite greenLed True] s in
           if now - lastStateUpdate_p1 s1 > 2000
           then emit_p1 [DigitalWrite greenLed False] (s1\<lparr>state_p1 := playing_r\<rparr>)
           else s1)
      | wrong \<Rightarrow>
          (let s1 = emit_p1 [DigitalWrite redLed True] s in
           if now - lastStateUpdate_p1 s1 > 2000
           then (emit_p1 [DigitalWrite redLed False] (s1\<lparr>state_p1 := playing_r\<rparr>))
                  \<lparr>locked_p1 := False\<rparr>
           else s1)
      | won \<Rightarrow>
          (let s1 = emit_p1 [DigitalWrite redLed (now mod 2000 < 1000),
                             DigitalWrite greenLed (now mod 2000 < 1000)] s in
           if now - lastStateUpdate_p1 s1 > 10000
           then (emit_p1 [DigitalWrite greenLed False, DigitalWrite redLed False]
                   (s1\<lparr>state_p1 := ready\<rparr>))\<lparr>locked_p1 := False\<rparr>
           else s1))"

definition onDataRecv_p1 :: "u32 \<Rightarrow> u8 list \<Rightarrow> remote_p1 \<Rightarrow> remote_p1" where
  "onDataRecv_p1 now incomingData s =
     (if \<not> locked_p1 s then
        (if length incomingData \<noteq> 1 then s
         else (case incomingData of
                 [] \<Rightarrow> s
               | command # _ \<Rightarrow>
                   if command = CMD_GAME_START then s\<lparr>state_p1 := playing_r\<rparr>
                   else if command = CMD_GOOD_GUESS then
                     s\<lparr>state_p1 := correct, lastStateUpdate_p1 := now, locked_p1 := True\<rparr>
                   else if command = CMD_WRONG_GUESS then
                     s\<lparr>state_p1 := wrong, lastStateUpdate_p1 := now, locked_p1 := True\<rparr>
                   else if command = CMD_GAME_WON then
                     s\<lparr>state_p1 := won, lastStateUpdate_p1 := now, locked_p1 := True\<rparr>
                   else if command = CMD_CONFIRM then
                     emit_p1 [Print ''Command confirmed by Game Manager.''] s
                   else s))
      else s)"

section \<open>Concrete runs\<close>

text \<open>
  Runs of events used below to evaluate the code on concrete inputs. The random
  generator of these runs returns the raw value 0 at every draw, so every drawn symbol
  is 1. A short press is a press edge, a poll that reads the pin LOW, a release edge
  100 ms later and a poll that reads the pin HIGH; a long press holds for 2000 ms.
\<close>

definition shortPress :: "u32 \<Rightarrow> event_manager list" where
  "shortPress t =
     [ButtonEdge t, Loop t False (\<lambda>i. 0), ButtonEdge (t + 100), Loop (t + 100) True (\<lambda>i. 0)]"

definition longPress :: "u32 \<Rightarrow> event_manager list" where
  "longPress t =
     [ButtonEdge t, Loop t False (\<lambda>i. 0), ButtonEdge (t + 2000), Loop (t + 2000) True (\<lambda>i. 0)]"

text \<open>Fifteen short presses in \<open>idle\<close>, then the long press that starts the game.\<close>

definition fifteen_presses_then_start :: "event_manager list" where
  "fifteen_presses_then_start =
     concat (map shortPress
       [1000, 1200, 1400, 1600, 1800, 2000, 2200, 2400, 2600, 2800, 3000, 3200, 3400,
        3600, 3800]) @ longPress 5000"

text \<open>
  Two runs of the manager of \<open>main.cpp\<close> from power-up, each up to the release edge of a
  press. In the first, a game at difficulty 0 is started and is won at clock 19990; the
  \<open>game_over\<close> iteration of the loop starts right after and blocks for six seconds; the
  button is pressed at clock 20000, during that iteration (the interrupt routine and
  that iteration do not touch the same variables, so their order in the run does not
  matter); the next iteration, in \<open>idle\<close>, polls the pin at clock 26000; the button is
  released at clock 26500, after 6500 ms. Iterations of the loop that only repeat the
  LED outputs are left out. In the second, the button is pressed at clock
  1000 and released at clock 3500, after 2500 ms; at clock 2500 the contact glitches,
  which raises one more edge interrupt while the pin still reads LOW.
\<close>

definition held_through_game_over :: "event_manager list" where
  "held_through_game_over =
     longPress 1000 @
     [Loop 3000 True (\<lambda>i. 0), Recv [1], Loop 19990 True (\<lambda>i. 0),
      ButtonEdge 20000, Loop 19991 False (\<lambda>i. 0), Loop 26000 False (\<lambda>i. 0),
      ButtonEdge 26500]"

definition glitch_while_held :: "event_manager list" where
  "glitch_while_held =
     [ButtonEdge 1000, Loop 1000 False (\<lambda>i. 0), ButtonEdge 2500, Loop 2500 False (\<lambda>i. 0),
      ButtonEdge 3500]"

text \<open>
  A run of the second revision of the manager. A long press starts a game at
  difficulty 0 (the two following iterations of the loop lead to \<open>playing\<close>). During
  play the button is long-pressed again. The player wins. The loop passes through
  \<open>game_over\<close> to \<open>idle\<close>, starts the next game by itself, and reaches \<open>playing\<close>
  again. Then the button is pressed for 500 ms.
\<close>

definition second_game_p0 :: "event_p0 list" where
  "second_game_p0 =
     [ButtonEdge_p0 1000 False, ButtonEdge_p0 3500 True, Loop_p0 (\<lambda>i. 0), Loop_p0 (\<lambda>i. 0),
      ButtonEdge_p0 10000 False, ButtonEdge_p0 12500 True, Loop_p0 (\<lambda>i. 0),
      Recv_p0 [1], Loop_p0 (\<lambda>i. 0), Loop_p0 (\<lambda>i. 0), Loop_p0 (\<lambda>i. 0),
      ButtonEdge_p0 20000 False, ButtonEdge_p0 20500 True]"

text \<open>
  A state of the manager in \<open>playing\<close> at difficulty 2 whose sequence starts
  1, 1, 1, and a state of the second revision of the manager likewise.
\<close>

definition playing_111 :: manager where
  "playing_111 = init_manager\<lparr>state := playing, difficulty := 2, sequence := replicate 15 1\<rparr>"

definition playing_111_p0 :: manager_p0 where
  "playing_111_p0 =
     init_manager_p0\<lparr>state_p0 := playing, difficulty_p0 := 2, sequence_p0 := replicate 15 1\<rparr>"

text \<open>
  A run of the remote of \<open>main.cpp\<close> from power-up: GAME_START is received, the loop
  enters \<open>playing\<close> at clock 100, button 1 is pressed at clock 500, the loop sends the
  guess at clock 600 and waits in \<open>guessed\<close>; then the reply \<open>command\<close> is received and
  the loop takes it up at clock 1000.
\<close>

definition guess_sent :: remote where
  "guess_sent =
     loop_remote 600 (0, 0) (\<lambda>i. True)
       (case onButton1Press 500
               (loop_remote 100 (0, 0) (\<lambda>i. True) (onDataRecv_remote [CMD_GAME_START] init_remote))
        of Inl e \<Rightarrow> init_remote | Inr s \<Rightarrow> s)"

definition after_reply :: "u8 \<Rightarrow> remote" where
  "after_reply command =
     loop_remote 1000 (0, 0) (\<lambda>i. True) (onDataRecv_remote [command] guess_sent)"

section \<open>The cursor while a game is played\<close>

text \<open>
  During \<open>countdown\<close> and \<open>playing\<close> the cursor is not beyond the difficulty and
  the sequence in play (\<open>difficulty + 1\<close> symbols) fits the buffer.
\<close>

definition cursor_ok :: "manager \<Rightarrow> bool" where
  "cursor_ok s =
     (if state s = countdown \<or> state s = playing
      then currentStep s \<le> difficulty s \<and> unat (difficulty s) < maxSequenceLength
      else True)"

section \<open>Helper facts\<close>

lemma sent_append: "sent (xs @ ys) = sent xs @ sent ys"
  by (induction xs rule: sent.induct) simp_all

lemma unat_succ_small: "unat (c :: u8) < 15 \<Longrightarrow> unat (c + 1) = unat c + 1"
  by (simp add: unat_word_ariths)

lemma random_long_1_4: "random_long raw 1 4 \<in> {1, 2, 3}"
proof -
  have "int raw mod 3 \<in> {0, 1, 2}" by (simp; presburger)
  then show ?thesis by (auto simp: random_long_def)
qed

lemma drawn_symbol: "(word_of_int (random_long raw 1 4) :: u8) \<in> {1, 2, 3}"
  using random_long_1_4 [of raw] by auto

section \<open>Sequence generation and the bounds of the buffer\<close>

text \<open>
  When the difficulty is at least \<open>maxSequenceLength\<close>, the generating loop reaches the
  index \<open>maxSequenceLength\<close> and writes there, one element past the array.
\<close>

lemma generateSequence_loop_overflow:
  "unat (difficulty s) \<ge> maxSequenceLength \<Longrightarrow> i \<le> maxSequenceLength \<Longrightarrow>
   generateSequence_loop rnd i s = Inl (OutOfBounds maxSequenceLength)"
proof (induction rnd i s rule: generateSequence_loop.induct)
  case (1 rnd i s)
  show ?case
  proof (cases "i < maxSequenceLength")
    case True
    let ?s' = "s\<lparr>sequence := (sequence s)[i := word_of_int (random_long (rnd i) 1 4)]\<rparr>"
    have w: "seq_write i (word_of_int (random_long (rnd i) 1 4)) s = Inr ?s'"
      using True by (simp add: seq_write_def)
    have "generateSequence_loop rnd (Suc i) ?s' = Inl (OutOfBounds maxSequenceLength)"
      using "1.IH" [OF _ w] "1.prems" True by simp
    then show ?thesis
      using w "1.prems" True by (subst generateSequence_loop.simps) simp
  next
    case False
    then have "i = maxSequenceLength" using "1.prems" by simp
    then show ?thesis
      using "1.prems" by (subst generateSequence_loop.simps) (simp add: seq_write_def)
  qed
qed

lemma generateSequence_loop_p0_overflow:
  "unat (difficulty_p0 s) \<ge> maxSequenceLength \<Longrightarrow> i \<le> maxSequenceLength \<Longrightarrow>
   generateSequence_loop_p0 rnd i s = Inl (OutOfBounds maxSequenceLength)"
proof (induction rnd i s rule: generateSequence_loop_p0.induct)
  case (1 rnd i s)
  show ?case
  proof (cases "i < maxSequenceLength")
    case True
    let ?s' = "s\<lparr>sequence_p0 := (sequence_p0 s)[i := word_of_int (random_long (rnd i) 1 4)]\<rparr>"
    have w: "seq_write_p0 i (word_of_int (random_long (rnd i) 1 4)) s = Inr ?s'"
      using True by (simp add: seq_write_p0_def)
    have "generateSequence_loop_p0 rnd (Suc i) ?s' = Inl (OutOfBounds maxSequenceLength)"
      using "1.IH" [OF _ w] "1.prems" True by simp
    then show ?thesis
      using w "1.prems" True by (subst generateSequence_loop_p0.simps) simp
  next
    case False
    then have "i = maxSequenceLength" using "1.prems" by simp
    then show ?thesis
      using "1.prems" by (subst generateSequence_loop_p0.simps) (simp add: seq_write_p0_def)
  qed
qed

text \<open>
  Below \<open>maxSequenceLength\<close> the loop returns: it overwrites the elements \<open>i\<close> to
  \<open>difficulty\<close> with draws and changes nothing else.
\<close>

lemma generateSequence_loop_ok:
  "unat (difficulty s) < maxSequenceLength \<Longrightarrow>
   \<exists>xs. generateSequence_loop rnd i s = Inr (s\<lparr>sequence := xs\<rparr>) \<and>
        length xs = length (sequence s) \<and>
        (\<forall>j < length xs. xs ! j =
           (if i \<le> j \<and> j \<le> unat (difficulty s)
            then word_of_int (random_long (rnd j) 1 4) else sequence s ! j))"
proof (induction rnd i s rule: generateSequence_loop.induct)
  case (1 rnd i s)
  show ?case
  proof (cases "i \<le> unat (difficulty s)")
    case True
    let ?v = "word_of_int (random_long (rnd i) 1 4) :: u8"
    let ?s' = "s\<lparr>sequence := (sequence s)[i := ?v]\<rparr>"
    have w: "seq_write i ?v s = Inr ?s'"
      using True "1.prems" by (simp add: seq_write_def)
    from "1.IH" [OF True w] "1.prems"
    obtain xs where xs: "generateSequence_loop rnd (Suc i) ?s' = Inr (?s'\<lparr>sequence := xs\<rparr>)"
      "length xs = length (sequence s)"
      "\<forall>j < length xs. xs ! j =
         (if Suc i \<le> j \<and> j \<le> unat (difficulty s)
          then word_of_int (random_long (rnd j) 1 4) else (sequence s)[i := ?v] ! j)"
      by auto
    have run: "generateSequence_loop rnd i s = Inr (s\<lparr>sequence := xs\<rparr>)"
      using w xs(1) True by (subst generateSequence_loop.simps) simp
    have "\<forall>j < length xs. xs ! j =
            (if i \<le> j \<and> j \<le> unat (difficulty s)
             then word_of_int (random_long (rnd j) 1 4) else sequence s ! j)"
    proof (intro allI impI)
      fix j assume j: "j < length xs"
      show "xs ! j = (if i \<le> j \<and> j \<le> unat (difficulty s)
                      then word_of_int (random_long (rnd j) 1 4) else sequence s ! j)"
      proof (cases "j = i")
        case True
        then show ?thesis using xs(2,3) j \<open>i \<le> unat (difficulty s)\<close> by simp
      next
        case False
        then have "(Suc i \<le> j) = (i \<le> j)" by auto
        then show ?thesis using xs(2,3) j False by simp
      qed
    qed
    with run xs(2) show ?thesis by blast
  next
    case False
    then have "generateSequence_loop rnd i s = Inr (s\<lparr>sequence := sequence s\<rparr>)"
      by (subst generateSequence_loop.simps) simp
    then show ?thesis using False by fastforce
  qed
qed

text \<open>Whenever the loop returns a state, only the sequence has changed.\<close>

lemma generateSequence_loop_frame:
  "generateSequence_loop rnd i s = Inr s' \<Longrightarrow> \<exists>xs. s' = s\<lparr>sequence := xs\<rparr>"
proof (induction rnd i s rule: generateSequence_loop.induct)
  case (1 rnd i s)
  show ?case
  proof (cases "i \<le> unat (difficulty s)")
    case True
    let ?v = "word_of_int (random_long (rnd i) 1 4) :: u8"
    let ?s' = "s\<lparr>sequence := (sequence s)[i := ?v]\<rparr>"
    from "1.prems" True have lt: "i < maxSequenceLength"
      by (subst (asm) generateSequence_loop.simps) (auto simp: seq_write_def split: if_splits)
    then have w: "seq_write i ?v s = Inr ?s'" by (simp add: seq_write_def)
    from "1.prems" True w have "generateSequence_loop rnd (Suc i) ?s' = Inr s'"
      by (subst (asm) generateSequence_loop.simps) simp
    from "1.IH" [OF True w this] obtain xs where "s' = ?s'\<lparr>sequence := xs\<rparr>" by blast
    then have "s' = s\<lparr>sequence := xs\<rparr>" by simp
    then show ?thesis by blast
  next
    case False
    with "1.prems" have "s' = s"
      by (subst (asm) generateSequence_loop.simps) simp
    then have "s' = s\<lparr>sequence := sequence s\<rparr>" by simp
    then show ?thesis by blast
  qed
qed

lemma generateSequence_frame:
  "generateSequence rnd s = Inr s' \<Longrightarrow>
   \<exists>xs. s' = s\<lparr>sequence := xs, currentStep := 0,
                 trace := trace s @ [Print ''Generating random sequence'']\<rparr>"
proof -
  assume a: "generateSequence rnd s = Inr s'"
  let ?s0 = "emit [Print ''Generating random sequence''] s"
  from a obtain s1 where s1: "generateSequence_loop rnd 0 ?s0 = Inr s1" "s' = s1\<lparr>currentStep := 0\<rparr>"
    by (auto simp: generateSequence_def split: sum.splits)
  from generateSequence_loop_frame [OF s1(1)] obtain xs where "s1 = ?s0\<lparr>sequence := xs\<rparr>"
    by blast
  with s1(2) have "s' = s\<lparr>sequence := xs, currentStep := 0,
                           trace := trace s @ [Print ''Generating random sequence'']\<rparr>"
    by (simp add: emit_def)
  then show ?thesis by blast
qed

text \<open>
  For a difficulty from 0 to 14 and a buffer of 15 elements, \<open>generateSequence\<close> returns:
  the first \<open>difficulty + 1\<close> elements are symbols from 1 to 3, the cursor is 0, and
  every index it wrote is inside the buffer.
\<close>

lemma generateSequence_ok:
  assumes "unat (difficulty s) < maxSequenceLength" "length (sequence s) = maxSequenceLength"
  shows "\<exists>s'. generateSequence rnd s = Inr s' \<and> currentStep s' = 0 \<and>
           difficulty s' = difficulty s \<and> state s' = state s \<and>
           length (take (unat (difficulty s) + 1) (sequence s')) = unat (difficulty s) + 1 \<and>
           set (take (unat (difficulty s) + 1) (sequence s')) \<subseteq> {1, 2, 3}"
proof -
  let ?s0 = "emit [Print ''Generating random sequence''] s"
  have d: "unat (difficulty ?s0) < maxSequenceLength" "difficulty ?s0 = difficulty s"
    "sequence ?s0 = sequence s"
    using assms by (simp_all add: emit_def)
  from generateSequence_loop_ok [OF d(1), of rnd 0]
  obtain xs where xs: "generateSequence_loop rnd 0 ?s0 = Inr (?s0\<lparr>sequence := xs\<rparr>)"
    "length xs = length (sequence s)"
    "\<forall>j < length xs. xs ! j = (if j \<le> unat (difficulty s)
        then word_of_int (random_long (rnd j) 1 4) else sequence s ! j)"
    using d(2,3) by auto
  let ?s' = "?s0\<lparr>sequence := xs, currentStep := 0\<rparr>"
  have run: "generateSequence rnd s = Inr ?s'"
    using xs(1) by (simp add: generateSequence_def)
  have len: "length (take (unat (difficulty s) + 1) xs) = unat (difficulty s) + 1"
    using xs(2) assms by simp
  have "set (take (unat (difficulty s) + 1) xs) \<subseteq> {1, 2, 3}"
  proof
    fix x assume "x \<in> set (take (unat (difficulty s) + 1) xs)"
    then obtain j where j: "j < unat (difficulty s) + 1" "j < length xs" "x = xs ! j"
      by (auto simp: in_set_conv_nth)
    then have "x = word_of_int (random_long (rnd j) 1 4)" using xs(3) by simp
    then show "x \<in> {1, 2, 3}" using drawn_symbol [of "rnd j"] by simp
  qed
  with run len show ?thesis by (intro exI [of _ ?s']) (simp add: emit_def)
qed

text \<open>
  C1. Claim: for every difficulty from 0 to 15 every access to the sequence array stays
  inside its 15 elements. At difficulty 15 the code does not: the generating loop runs
  \<open>i\<close> from 0 to 15 and its last write is \<open>sequence[15]\<close>, past the last element
  \<open>sequence[14]\<close>. This holds in the manager and in its second revision, for
  every state and every random source.
\<close>

theorem generateSequence_writes_past_buffer:
  "generateSequence rnd (s\<lparr>difficulty := 15\<rparr>) = Inl (OutOfBounds 15) \<and>
   generateSequence_p0 rnd (s0\<lparr>difficulty_p0 := 15\<rparr>) = Inl (OutOfBounds 15)"
proof
  let ?s = "emit [Print ''Generating random sequence''] (s\<lparr>difficulty := 15\<rparr>)"
  have "unat (difficulty ?s) \<ge> maxSequenceLength"
    by (simp add: emit_def maxSequenceLength_def)
  from generateSequence_loop_overflow [OF this, of 0 rnd]
  show "generateSequence rnd (s\<lparr>difficulty := 15\<rparr>) = Inl (OutOfBounds 15)"
    by (simp add: generateSequence_def maxSequenceLength_def)
next
  let ?s = "emit_p0 [Print ''Generating random sequence''] (s0\<lparr>difficulty_p0 := 15\<rparr>)"
  have "unat (difficulty_p0 ?s) \<ge> maxSequenceLength"
    by (simp add: emit_p0_def maxSequenceLength_def)
  from generateSequence_loop_p0_overflow [OF this, of 0 rnd]
  show "generateSequence_p0 rnd (s0\<lparr>difficulty_p0 := 15\<rparr>) = Inl (OutOfBounds 15)"
    by (simp add: generateSequence_p0_def maxSequenceLength_def)
qed

text \<open>Runs compose; fifteen short presses lead from power-up to difficulty 15.\<close>

lemma run_manager_append:
  "run_manager (xs @ ys) s =
     (case run_manager xs s of Inl e \<Rightarrow> Inl e | Inr s' \<Rightarrow> run_manager ys s')"
  by (induction xs arbitrary: s) (auto split: sum.splits)

lemmas manager_defs =
  loop_manager_def updateButtonState_def onButtonPress_manager_def increaseDifficulty_def
  displayDifficulty_def emit_def debounceDelay_manager_def longPressDuration_def Let_def

lemma fifteen_short_presses:
  "\<exists>s. run_manager (concat (map shortPress
       [1000, 1200, 1400, 1600, 1800, 2000, 2200, 2400, 2600, 2800, 3000, 3200, 3400,
        3600, 3800])) init_manager = Inr s \<and>
     state s = idle \<and> difficulty s = 15 \<and> \<not> longPressed s \<and> \<not> shortPressed s \<and>
     buttonPressStart s = 0 \<and> lastDebounceTime s = 3900"
  by (simp add: shortPress_def init_manager_def manager_defs)

lemma press_poll:
  assumes "state s = idle" "\<not> longPressed s" "\<not> shortPressed s" "buttonInter s"
  shows "loop_manager now False rnd s = Inr (s\<lparr>buttonPressStart := now, buttonInter := False\<rparr>)"
  using assms by (simp add: loop_manager_def updateButtonState_def Let_def)

lemma long_press_at_15:
  assumes "state s = idle" "difficulty s = 15" "\<not> longPressed s" "\<not> shortPressed s"
    "lastDebounceTime s = 3900"
  shows "run_manager (longPress 5000) s = Inl (OutOfBounds 15)"
proof -
  let ?s1 = "s\<lparr>lastDebounceTime := 5000, buttonInter := True\<rparr>"
  have e1: "onButtonPress_manager 5000 s = ?s1"
    using assms by (simp add: onButtonPress_manager_def debounceDelay_manager_def)
  let ?s2 = "?s1\<lparr>buttonPressStart := 5000, buttonInter := False\<rparr>"
  have e2: "loop_manager 5000 False (\<lambda>i. 0) ?s1 = Inr ?s2"
    using assms by (simp add: press_poll)
  let ?s3 = "?s2\<lparr>lastDebounceTime := 7000, buttonInter := True\<rparr>"
  have e3: "onButtonPress_manager 7000 ?s2 = ?s3"
    by (simp add: onButtonPress_manager_def debounceDelay_manager_def)
  let ?s4 = "updateButtonState 7000 True ?s3"
  have s4: "longPressed ?s4" "difficulty ?s4 = 15"
    using assms by (simp_all add: updateButtonState_def longPressDuration_def emit_def)
  have "unat (difficulty (emit [Print ''Generating random sequence''] ?s4)) \<ge> maxSequenceLength"
    using s4(2) by (simp add: emit_def maxSequenceLength_def)
  from generateSequence_loop_overflow [OF this, of 0 "\<lambda>i. 0"]
  have "generateSequence (\<lambda>i. 0) ?s4 = Inl (OutOfBounds 15)"
    by (simp add: generateSequence_def maxSequenceLength_def)
  then have e4: "loop_manager 7000 True (\<lambda>i. 0) ?s3 = Inl (OutOfBounds 15)"
    using s4(1) assms(1) by (simp add: loop_manager_def Let_def)
  show ?thesis
    using e1 e2 e3 e4 by (simp add: longPress_def)
qed

text \<open>
  C2. Claim: for every difficulty from 0 to 15, \<open>generateSequence\<close> produces
  \<open>difficulty + 1\<close> symbols from 1 to 3 and resets the cursor. For 0 to 14 this is
  \<open>generateSequence_ok\<close>. Difficulty 15 is reached from the initial state by fifteen
  short presses; the long press that follows runs \<open>generateSequence\<close>, which does not
  produce a sequence of 16 symbols in the 15-element buffer: the run ends in the write
  out of bounds.
\<close>

theorem no_sequence_at_difficulty_15:
  "run_manager fifteen_presses_then_start init_manager = Inl (OutOfBounds 15)"
proof -
  let ?presses = "concat (map shortPress
       [1000, 1200, 1400, 1600, 1800, 2000, 2200, 2400, 2600, 2800, 3000, 3200, 3400,
        3600, 3800])"
  from fifteen_short_presses obtain s where
    run: "run_manager ?presses init_manager = Inr s" and
    s: "state s = idle" "difficulty s = 15" "\<not> longPressed s" "\<not> shortPressed s"
       "lastDebounceTime s = 3900"
    by blast
  have "run_manager (longPress 5000) s = Inl (OutOfBounds 15)"
    using s by (rule long_press_at_15)
  with run have "run_manager (?presses @ longPress 5000) init_manager = Inl (OutOfBounds 15)"
    by (simp only: run_manager_append sum.case)
  then show ?thesis by (simp only: fifteen_presses_then_start_def)
qed

section \<open>Verification of a guess\<close>

text \<open>
  The three outcomes of \<open>treatGuess\<close>, for a cursor inside the buffer and not beyond the
  difficulty. The sequence in play has \<open>difficulty + 1\<close> symbols.
\<close>

lemma treatGuess_cases:
  assumes "unat (currentStep s) < maxSequenceLength" "currentStep s \<le> difficulty s"
  shows "\<exists>s'. treatGuess s = Inr s' \<and>
     sent (trace s') = sent (trace s) @
        [if guess s \<noteq> sequence s ! unat (currentStep s) then CMD_WRONG_GUESS
         else if unat (currentStep s) + 1 < unat (difficulty s) + 1 then CMD_GOOD_GUESS
         else CMD_GAME_WON] \<and>
     currentStep s' =
        (if guess s \<noteq> sequence s ! unat (currentStep s) then 0 else currentStep s + 1) \<and>
     state s' =
        (if guess s = sequence s ! unat (currentStep s) \<and>
            unat (currentStep s) + 1 = unat (difficulty s) + 1
         then game_over else state s) \<and>
     sequence s' = sequence s \<and> difficulty s' = difficulty s"
proof -
  have c: "unat (currentStep s + 1) = unat (currentStep s) + 1"
    using assms(1) by (simp add: unat_succ_small maxSequenceLength_def)
  have le: "unat (currentStep s) \<le> unat (difficulty s)"
    using assms(2) by (simp add: word_le_nat_alt)
  have gt: "(currentStep s + 1 > difficulty s) = (unat (currentStep s) = unat (difficulty s))"
    using c le by (auto simp: word_less_nat_alt)
  show ?thesis
    using assms(1) gt le
    by (auto simp: treatGuess_def seq_read_def emit_def Let_def sent_append)
qed

lemma onDataRecv_p0_cases:
  assumes "state_p0 s = playing" "unat (currentStep_p0 s) < maxSequenceLength"
    "currentStep_p0 s \<le> difficulty_p0 s"
  shows "\<exists>s'. onDataRecv_p0 [g] s = Inr s' \<and>
     sent (trace_p0 s') = sent (trace_p0 s) @
        [if g \<noteq> sequence_p0 s ! unat (currentStep_p0 s) then CMD_WRONG_GUESS
         else if unat (currentStep_p0 s) + 1 < unat (difficulty_p0 s) + 1 then CMD_GOOD_GUESS
         else CMD_GAME_WON] \<and>
     currentStep_p0 s' =
        (if g \<noteq> sequence_p0 s ! unat (currentStep_p0 s) then 0 else currentStep_p0 s + 1) \<and>
     state_p0 s' =
        (if g = sequence_p0 s ! unat (currentStep_p0 s) \<and>
            unat (currentStep_p0 s) + 1 = unat (difficulty_p0 s) + 1
         then game_over else playing) \<and>
     sequence_p0 s' = sequence_p0 s \<and> difficulty_p0 s' = difficulty_p0 s"
proof -
  have c: "unat (currentStep_p0 s + 1) = unat (currentStep_p0 s) + 1"
    using assms(2) by (simp add: unat_succ_small maxSequenceLength_def)
  have le: "unat (currentStep_p0 s) \<le> unat (difficulty_p0 s)"
    using assms(3) by (simp add: word_le_nat_alt)
  have gt: "(currentStep_p0 s + 1 > difficulty_p0 s) =
            (unat (currentStep_p0 s) = unat (difficulty_p0 s))"
    using c le by (auto simp: word_less_nat_alt)
  show ?thesis
    using assms(1,2) gt le
    by (auto simp: onDataRecv_p0_def seq_read_p0_def emit_p0_def Let_def sent_append)
qed

lemma loop_manager_playing:
  "state s = playing \<Longrightarrow> guessed s \<Longrightarrow>
   loop_manager now pin rnd s = treatGuess (displayDifficulty s)"
  by (simp add: loop_manager_def displayDifficulty_def emit_def)

text \<open>
  \<open>cursor_ok\<close> holds initially and after every handler that returns, so it holds in
  every state the manager reaches.
\<close>

lemma generateSequence_Inr_bound:
  assumes "generateSequence rnd s = Inr s'"
  shows "unat (difficulty s) < maxSequenceLength"
proof (rule ccontr)
  assume "\<not> unat (difficulty s) < maxSequenceLength"
  then have "unat (difficulty (emit [Print ''Generating random sequence''] s)) \<ge> maxSequenceLength"
    by (simp add: emit_def)
  from generateSequence_loop_overflow [OF this, of 0 rnd] assms show False
    by (simp add: generateSequence_def)
qed

lemma cursor_ok_step:
  assumes "cursor_ok s" "step_manager e s = Inr s'"
  shows "cursor_ok s'"
proof (cases e)
  case (Loop now pin rnd)
  show ?thesis
  proof (cases "state s")
    case idle
    let ?s1 = "updateButtonState now pin s"
    have u: "difficulty ?s1 = difficulty s" "state ?s1 = idle"
      using idle by (simp_all add: updateButtonState_def emit_def)
    show ?thesis
    proof (cases "buttonInter s \<and> longPressed ?s1")
      case True
      then obtain s2 where s2: "generateSequence rnd ?s1 = Inr s2"
        "s' = s2\<lparr>state := countdown, longPressed := False, buttonInter := False\<rparr>"
        using assms(2) Loop idle by (auto simp: loop_manager_def Let_def split: sum.splits)
      from generateSequence_frame [OF s2(1)]
      have "difficulty s2 = difficulty ?s1" "currentStep s2 = 0" by auto
      then show ?thesis
        using s2(2) generateSequence_Inr_bound [OF s2(1)] by (simp add: cursor_ok_def)
    next
      case False
      then show ?thesis
        using assms(2) Loop idle u
        by (auto simp: loop_manager_def Let_def increaseDifficulty_def displayDifficulty_def
              emit_def cursor_ok_def split: if_splits)
    qed
  next
    case countdown
    then show ?thesis
      using assms Loop
      by (auto simp: loop_manager_def sendGameStart_def alertBlink_def emit_def cursor_ok_def)
  next
    case playing
    let ?s1 = "displayDifficulty s"
    have d: "currentStep ?s1 \<le> difficulty ?s1" "unat (difficulty ?s1) < maxSequenceLength"
      "state ?s1 = playing" "difficulty ?s1 = difficulty s" "currentStep ?s1 = currentStep s"
      using assms(1) playing by (simp_all add: cursor_ok_def displayDifficulty_def emit_def)
    show ?thesis
    proof (cases "guessed s")
      case False
      then show ?thesis
        using assms Loop playing d
        by (auto simp: loop_manager_def displayDifficulty_def emit_def cursor_ok_def Let_def)
    next
      case True
      then have t: "treatGuess ?s1 = Inr s'"
        using assms(2) Loop playing by (simp add: loop_manager_playing)
      have lt: "unat (currentStep ?s1) < maxSequenceLength"
        using d(1,2) by (simp add: word_le_nat_alt)
      from treatGuess_cases [OF lt d(1)] t
      have r: "currentStep s' =
          (if guess ?s1 \<noteq> sequence ?s1 ! unat (currentStep ?s1) then 0 else currentStep ?s1 + 1)"
        "state s' =
          (if guess ?s1 = sequence ?s1 ! unat (currentStep ?s1) \<and>
              unat (currentStep ?s1) + 1 = unat (difficulty ?s1) + 1
           then game_over else state ?s1)"
        "difficulty s' = difficulty ?s1"
        by auto
      have c: "unat (currentStep ?s1 + 1) = unat (currentStep ?s1) + 1"
        using lt by (simp add: unat_succ_small maxSequenceLength_def)
      show ?thesis
        using r d c by (auto simp: cursor_ok_def word_le_nat_alt)
    qed
  next
    case game_over
    then show ?thesis
      using assms Loop by (auto simp: loop_manager_def alertBlink_def emit_def cursor_ok_def)
  qed
next
  case (Recv incomingData)
  then show ?thesis
    using assms by (auto simp: onDataRecv_manager_def cursor_ok_def split: if_splits list.splits)
next
  case (ButtonEdge currentMillis)
  then show ?thesis
    using assms by (auto simp: onButtonPress_manager_def cursor_ok_def split: if_splits)
next
  case (SendDone success)
  then show ?thesis using assms by (auto simp: onDataSent_manager_def emit_def cursor_ok_def)
qed

lemma cursor_ok_run:
  "cursor_ok s \<Longrightarrow> run_manager es s = Inr s' \<Longrightarrow> cursor_ok s'"
proof (induction es arbitrary: s)
  case Nil
  then show ?case by simp
next
  case (Cons e es)
  then show ?case by (auto split: sum.splits dest: cursor_ok_step)
qed

lemma cursor_ok_init: "cursor_ok init_manager"
  by (simp add: cursor_ok_def init_manager_def)

text \<open>
  C3. An inbound guess of one byte \<open>g\<close>, received and processed while the manager is in
  \<open>playing\<close>, with the cursor inside the sequence in play (not beyond the difficulty:
  the sequence has \<open>difficulty + 1\<close> symbols) and inside the buffer. For the manager of
  \<open>main.cpp\<close> both conditions hold in every state reached from power-up
  (\<open>cursor_ok_init\<close>, \<open>cursor_ok_run\<close>). In \<open>main.cpp\<close> the receive callback stores the
  byte and sets \<open>guessed\<close>, and the next iteration of the loop verifies it; in the second
  revision the receive callback verifies the byte itself. In both, a guess that differs
  from \<open>sequence[cursor]\<close> sends WRONG_GUESS, resets the cursor to 0 and stays in
  \<open>playing\<close>; a match with \<open>cursor + 1\<close> below the length sends GOOD_GUESS, increments
  the cursor and stays in \<open>playing\<close>; a match with \<open>cursor + 1\<close> equal to the length
  sends GAME_WON and moves to \<open>game_over\<close>. Exactly one command is sent.
\<close>

theorem guess_verification:
  assumes "state s = playing"
    "unat (currentStep s) < maxSequenceLength" "currentStep s \<le> difficulty s"
    "state_p0 s0 = playing"
    "unat (currentStep_p0 s0) < maxSequenceLength" "currentStep_p0 s0 \<le> difficulty_p0 s0"
  shows "onDataRecv_manager [g] s = Inr (s\<lparr>guessed := True, guess := g\<rparr>) \<and>
    (\<exists>s'. run_manager [Recv [g], Loop now pin rnd] s = Inr s' \<and>
     sent (trace s') = sent (trace s) @
        [if g \<noteq> sequence s ! unat (currentStep s) then CMD_WRONG_GUESS
         else if unat (currentStep s) + 1 < unat (difficulty s) + 1 then CMD_GOOD_GUESS
         else CMD_GAME_WON] \<and>
     currentStep s' =
        (if g \<noteq> sequence s ! unat (currentStep s) then 0 else currentStep s + 1) \<and>
     state s' =
        (if g = sequence s ! unat (currentStep s) \<and>
            unat (currentStep s) + 1 = unat (difficulty s) + 1
         then game_over else playing)) \<and>
    (\<exists>s0'. onDataRecv_p0 [g] s0 = Inr s0' \<and>
     sent (trace_p0 s0') = sent (trace_p0 s0) @
        [if g \<noteq> sequence_p0 s0 ! unat (currentStep_p0 s0) then CMD_WRONG_GUESS
         else if unat (currentStep_p0 s0) + 1 < unat (difficulty_p0 s0) + 1 then CMD_GOOD_GUESS
         else CMD_GAME_WON] \<and>
     currentStep_p0 s0' =
        (if g \<noteq> sequence_p0 s0 ! unat (currentStep_p0 s0) then 0 else currentStep_p0 s0 + 1) \<and>
     state_p0 s0' =
        (if g = sequence_p0 s0 ! unat (currentStep_p0 s0) \<and>
            unat (currentStep_p0 s0) + 1 = unat (difficulty_p0 s0) + 1
         then game_over else playing))"
proof (intro conjI)
  let ?s1 = "s\<lparr>guessed := True, guess := g\<rparr>"
  show recv: "onDataRecv_manager [g] s = Inr ?s1"
    using assms(1) by (simp add: onDataRecv_manager_def)
  let ?s = "displayDifficulty ?s1"
  have d: "unat (currentStep ?s) < maxSequenceLength" "currentStep ?s \<le> difficulty ?s"
    "guess ?s = g" "sequence ?s = sequence s" "currentStep ?s = currentStep s"
    "difficulty ?s = difficulty s" "state ?s = playing"
    "sent (trace ?s) = sent (trace s)"
    using assms(1,2,3) by (simp_all add: displayDifficulty_def emit_def sent_append)
  have p: "state ?s1 = playing" "guessed ?s1" using assms(1) by simp_all
  have run: "run_manager [Recv [g], Loop now pin rnd] s = treatGuess ?s"
    using recv loop_manager_playing [OF p, of now pin rnd]
    by (cases "treatGuess ?s") simp_all
  from treatGuess_cases [OF d(1,2)]
  show "\<exists>s'. run_manager [Recv [g], Loop now pin rnd] s = Inr s' \<and>
     sent (trace s') = sent (trace s) @
        [if g \<noteq> sequence s ! unat (currentStep s) then CMD_WRONG_GUESS
         else if unat (currentStep s) + 1 < unat (difficulty s) + 1 then CMD_GOOD_GUESS
         else CMD_GAME_WON] \<and>
     currentStep s' =
        (if g \<noteq> sequence s ! unat (currentStep s) then 0 else currentStep s + 1) \<and>
     state s' =
        (if g = sequence s ! unat (currentStep s) \<and>
            unat (currentStep s) + 1 = unat (difficulty s) + 1
         then game_over else playing)"
    unfolding run d(3-8) by auto
next
  from onDataRecv_p0_cases [OF assms(4,5,6), of g]
  show "\<exists>s0'. onDataRecv_p0 [g] s0 = Inr s0' \<and>
     sent (trace_p0 s0') = sent (trace_p0 s0) @
        [if g \<noteq> sequence_p0 s0 ! unat (currentStep_p0 s0) then CMD_WRONG_GUESS
         else if unat (currentStep_p0 s0) + 1 < unat (difficulty_p0 s0) + 1 then CMD_GOOD_GUESS
         else CMD_GAME_WON] \<and>
     currentStep_p0 s0' =
        (if g \<noteq> sequence_p0 s0 ! unat (currentStep_p0 s0) then 0 else currentStep_p0 s0 + 1) \<and>
     state_p0 s0' =
        (if g = sequence_p0 s0 ! unat (currentStep_p0 s0) \<and>
            unat (currentStep_p0 s0) + 1 = unat (difficulty_p0 s0) + 1
         then game_over else playing)"
    by auto
qed

text \<open>
  The three outcomes at difficulty 2 with the sequence 1, 1, 1, each as a reception
  followed by one iteration of the loop: guess 2 at cursor 1 is wrong; guess 1 at
  cursor 0 is good; guess 1 at cursor 2 wins.
\<close>

theorem guess_verification_witness:
  "(\<exists>s'. run_manager [Recv [2], Loop 0 True (\<lambda>i. 0)] (playing_111\<lparr>currentStep := 1\<rparr>) = Inr s' \<and>
          sent (trace s') = [CMD_WRONG_GUESS] \<and> currentStep s' = 0 \<and> state s' = playing) \<and>
   (\<exists>s'. onDataRecv_p0 [2] (playing_111_p0\<lparr>currentStep_p0 := 1\<rparr>) = Inr s' \<and>
          sent (trace_p0 s') = [CMD_WRONG_GUESS] \<and> currentStep_p0 s' = 0 \<and> state_p0 s' = playing) \<and>
   (\<exists>s'. run_manager [Recv [1], Loop 0 True (\<lambda>i. 0)] playing_111 = Inr s' \<and>
          sent (trace s') = [CMD_GOOD_GUESS] \<and> currentStep s' = 1 \<and> state s' = playing) \<and>
   (\<exists>s'. onDataRecv_p0 [1] playing_111_p0 = Inr s' \<and>
          sent (trace_p0 s') = [CMD_GOOD_GUESS] \<and> currentStep_p0 s' = 1 \<and> state_p0 s' = playing) \<and>
   (\<exists>s'. run_manager [Recv [1], Loop 0 True (\<lambda>i. 0)] (playing_111\<lparr>currentStep := 2\<rparr>) = Inr s' \<and>
          sent (trace s') = [CMD_GAME_WON] \<and> currentStep s' = 3 \<and> state s' = game_over) \<and>
   (\<exists>s'. onDataRecv_p0 [1] (playing_111_p0\<lparr>currentStep_p0 := 2\<rparr>) = Inr s' \<and>
          sent (trace_p0 s') = [CMD_GAME_WON] \<and> currentStep_p0 s' = 3 \<and> state_p0 s' = game_over)"
  using
    guess_verification [of "playing_111\<lparr>currentStep := 1\<rparr>"
      "playing_111_p0\<lparr>currentStep_p0 := 1\<rparr>" 2 0 True "\<lambda>i. 0"]
    guess_verification [of "playing_111" "playing_111_p0" 1 0 True "\<lambda>i. 0"]
    guess_verification [of "playing_111\<lparr>currentStep := 2\<rparr>"
      "playing_111_p0\<lparr>currentStep_p0 := 2\<rparr>" 1 0 True "\<lambda>i. 0"]
  by (simp add: playing_111_def playing_111_p0_def init_manager_def init_manager_p0_def
        maxSequenceLength_def onDataRecv_manager_def)

section \<open>The button of the manager\<close>

text \<open>
  C9. Claim: the release of every press-release cycle is classified long exactly when
  the button was held at least 2000 ms and short exactly when it was held less, edges
  inside the debounce window are discarded, and a cycle is classified once. The code
  does not measure the time held. The interrupt routine records the time of the accepted
  press edge in \<open>lastDebounceTime\<close>, but \<open>updateButtonState\<close> measures from
  \<open>buttonPressStart\<close>, which it sets to the clock of every poll that reads the pin LOW,
  and it polls only in \<open>idle\<close>. So the start of a press is moved forward when the press
  begins outside \<open>idle\<close> and when a second poll reads LOW during the press. After
  \<open>held_through_game_over\<close> the button has been held for 6500 ms, and after
  \<open>glitch_while_held\<close> for 2500 ms; in both runs the poll that follows the release edge
  classifies the press as short, and the difficulty is raised instead of a game being
  started.
\<close>

theorem long_hold_classified_short:
  "(2000 :: u32) \<le> 26500 - 20000 \<and> (2000 :: u32) \<le> 3500 - 1000 \<and>
   (\<exists>s. run_manager held_through_game_over init_manager = Inr s \<and>
         state s = idle \<and> buttonInter s \<and> difficulty s = 0 \<and>
         shortPressed (updateButtonState 26500 True s) \<and>
         \<not> longPressed (updateButtonState 26500 True s) \<and>
         (\<exists>s'. loop_manager 26500 True (\<lambda>i. 0) s = Inr s' \<and>
               state s' = idle \<and> difficulty s' = 1)) \<and>
   (\<exists>s. run_manager glitch_while_held init_manager = Inr s \<and>
         state s = idle \<and> buttonInter s \<and> difficulty s = 0 \<and>
         shortPressed (updateButtonState 3500 True s) \<and>
         \<not> longPressed (updateButtonState 3500 True s) \<and>
         (\<exists>s'. loop_manager 3500 True (\<lambda>i. 0) s = Inr s' \<and>
               state s' = idle \<and> difficulty s' = 1))"
  by (simp add: held_through_game_over_def glitch_while_held_def longPress_def init_manager_def
        manager_defs onDataRecv_manager_def generateSequence_def generateSequence_loop.simps
        seq_write_def seq_read_def treatGuess_def sendGameStart_def alertBlink_def
        random_long_def maxSequenceLength_def)

text \<open>
  Two press-release cycles that are not classified. A press that the loop records at
  clock 0 is lost: \<open>updateButtonState\<close> stores the clock in \<open>buttonPressStart\<close> and
  later takes \<open>buttonPressStart > 0\<close> as "a press is in progress", so a press stored as
  0 is not seen at the release; held for 3000 ms, it is classified neither long nor
  short. The clock is 0 when \<open>millis()\<close> wraps around; in the first run below the last
  accepted edge was 100 ms before the wrap, and after the whole cycle the state differs
  from the one before it only in the time of the last accepted edge. In the second run
  the button is released 30 ms after the press: the release edge falls into the debounce
  window, the interrupt routine discards it, the loop does not poll, and the press of
  30 ms is classified neither short nor long.
\<close>

lemma unclassified_press_release_cycles:
  "(2000 :: u32) \<le> 3000 - 0 \<and>
   \<not> longPressed (updateButtonState 3000 True (updateButtonState 0 False init_manager)) \<and>
   \<not> shortPressed (updateButtonState 3000 True (updateButtonState 0 False init_manager)) \<and>
   run_manager [ButtonEdge 0, Loop 0 False (\<lambda>i. 0), ButtonEdge 3000, Loop 3000 True (\<lambda>i. 0)]
     (init_manager\<lparr>buttonInter := False, lastDebounceTime := 4294967196\<rparr>) =
   Inr (init_manager\<lparr>buttonInter := False, lastDebounceTime := 3000\<rparr>) \<and>
   run_manager [ButtonEdge 1000, Loop 1000 False (\<lambda>i. 0), ButtonEdge 1030, Loop 1030 True (\<lambda>i. 0)]
     init_manager =
   Inr (init_manager\<lparr>buttonInter := False, lastDebounceTime := 1000, buttonPressStart := 1000\<rparr>)"
  by (simp add: updateButtonState_def init_manager_def loop_manager_def onButtonPress_manager_def
        debounceDelay_manager_def Let_def)

text \<open>
  The threshold itself is applied as stated, on the interval the code measures. For a
  poll that reads the pin LOW at clock \<open>tp\<close>, not 0, followed directly by a poll that
  reads it HIGH at clock \<open>tr\<close>, with both flags clear (\<open>press_flags_clear\<close> below): the
  release is classified long exactly when \<open>tr - tp\<close> is at least 2000 and short exactly
  when it is less; \<open>buttonPressStart\<close> is 0 again, so polling the released button again
  classifies nothing more; and an edge within the 50 ms debounce window of the last
  accepted edge is discarded by the interrupt routine, with no change of the state.
\<close>

lemma consecutive_polls_classification:
  assumes "tp \<noteq> 0" "\<not> longPressed s" "\<not> shortPressed s"
  shows "buttonPressStart (updateButtonState tp False s) = tp \<and>
    (longPressed (updateButtonState tr True (updateButtonState tp False s))
       \<longleftrightarrow> 2000 \<le> tr - tp) \<and>
    (shortPressed (updateButtonState tr True (updateButtonState tp False s))
       \<longleftrightarrow> tr - tp < 2000) \<and>
    buttonPressStart (updateButtonState tr True (updateButtonState tp False s)) = 0 \<and>
    (\<forall>t. updateButtonState t True (updateButtonState tr True (updateButtonState tp False s))
           = updateButtonState tr True (updateButtonState tp False s)) \<and>
    (\<forall>t. t - lastDebounceTime s \<le> 50 \<longrightarrow> onButtonPress_manager t s = s)"
proof -
  have pos: "0 < tp" using assms(1) by (simp add: word_greater_zero_iff)
  show ?thesis
    using assms pos
    by (auto simp: updateButtonState_def onButtonPress_manager_def emit_def
          longPressDuration_def debounceDelay_manager_def not_le)
qed

lemma consecutive_polls_example:
  "(1000 :: u32) \<noteq> 0 \<and> \<not> longPressed init_manager \<and> \<not> shortPressed init_manager \<and>
   longPressed (updateButtonState 3000 True (updateButtonState 1000 False init_manager)) \<and>
   \<not> shortPressed (updateButtonState 3000 True (updateButtonState 1000 False init_manager)) \<and>
   shortPressed (updateButtonState 2999 True (updateButtonState 1000 False init_manager)) \<and>
   \<not> longPressed (updateButtonState 2999 True (updateButtonState 1000 False init_manager)) \<and>
   onButtonPress_manager 50 init_manager = init_manager \<and>
   onButtonPress_manager 51 init_manager \<noteq> init_manager"
proof -
  have h: "(1000 :: u32) \<noteq> 0" "\<not> longPressed init_manager" "\<not> shortPressed init_manager"
    by (simp_all add: init_manager_def)
  from consecutive_polls_classification [OF h, of 3000] consecutive_polls_classification [OF h, of 2999]
  have "longPressed (updateButtonState 3000 True (updateButtonState 1000 False init_manager))"
    "\<not> shortPressed (updateButtonState 3000 True (updateButtonState 1000 False init_manager))"
    "shortPressed (updateButtonState 2999 True (updateButtonState 1000 False init_manager))"
    "\<not> longPressed (updateButtonState 2999 True (updateButtonState 1000 False init_manager))"
    "onButtonPress_manager 50 init_manager = init_manager"
    by (simp_all add: init_manager_def)
  moreover have "onButtonPress_manager 51 init_manager \<noteq> init_manager"
    by (simp add: onButtonPress_manager_def init_manager_def debounceDelay_manager_def)
  ultimately show ?thesis using h by simp
qed

text \<open>
  The two flags are clear whenever a handler starts: every handler that returns leaves
  them clear if it found them clear.
\<close>

lemma press_flags_clear:
  assumes "\<not> longPressed s" "\<not> shortPressed s" "step_manager e s = Inr s'"
  shows "\<not> longPressed s' \<and> \<not> shortPressed s'"
proof (cases e)
  case (Loop now pin rnd)
  show ?thesis
  proof (cases "state s")
    case idle
    let ?s1 = "updateButtonState now pin s"
    show ?thesis
    proof (cases "buttonInter s")
      case False
      then show ?thesis using assms Loop idle by (simp add: loop_manager_def)
    next
      case True
      have one: "\<not> (longPressed ?s1 \<and> shortPressed ?s1)"
        using assms(1,2) by (simp add: updateButtonState_def emit_def)
      show ?thesis
      proof (cases "longPressed ?s1")
        case lp: True
        then obtain s2 where s2: "generateSequence rnd ?s1 = Inr s2"
          "s' = s2\<lparr>state := countdown, longPressed := False, buttonInter := False\<rparr>"
          using assms(3) Loop idle True
          by (auto simp: loop_manager_def Let_def split: sum.splits)
        from generateSequence_frame [OF s2(1)] have "shortPressed s2 = shortPressed ?s1"
          by auto
        then show ?thesis using s2(2) one lp by simp
      next
        case False
        then show ?thesis
          using assms(3) Loop idle True
          by (auto simp: loop_manager_def Let_def increaseDifficulty_def displayDifficulty_def
                emit_def split: if_splits)
      qed
    qed
  next
    case countdown
    then show ?thesis
      using assms Loop by (auto simp: loop_manager_def sendGameStart_def alertBlink_def emit_def)
  next
    case playing
    then show ?thesis
      using assms Loop
      by (auto simp: loop_manager_def treatGuess_def seq_read_def displayDifficulty_def emit_def
            Let_def split: if_splits)
  next
    case game_over
    then show ?thesis
      using assms Loop by (auto simp: loop_manager_def alertBlink_def emit_def)
  qed
next
  case (Recv incomingData)
  then show ?thesis
    using assms by (auto simp: onDataRecv_manager_def split: if_splits list.splits)
next
  case (ButtonEdge currentMillis)
  then show ?thesis using assms by (auto simp: onButtonPress_manager_def split: if_splits)
next
  case (SendDone success)
  then show ?thesis using assms by (auto simp: onDataSent_manager_def emit_def)
qed

section \<open>The stored guess of the manager\<close>

lemma treatGuess_keeps_guess:
  "treatGuess s = Inr s' \<Longrightarrow> guessed s' = guessed s \<and> guess s' = guess s"
  by (auto simp: treatGuess_def seq_read_def emit_def Let_def split: if_splits)

lemma loop_manager_keeps_guess:
  assumes "loop_manager now pin rnd s = Inr s'"
  shows "guessed s' = guessed s \<and> guess s' = guess s"
proof (cases "state s")
  case idle
  let ?s1 = "updateButtonState now pin s"
  have u: "guessed ?s1 = guessed s" "guess ?s1 = guess s"
    by (simp_all add: updateButtonState_def emit_def)
  show ?thesis
  proof (cases "buttonInter s \<and> longPressed ?s1")
    case True
    then obtain s2 where s2: "generateSequence rnd ?s1 = Inr s2"
      "s' = s2\<lparr>state := countdown, longPressed := False, buttonInter := False\<rparr>"
      using assms idle by (auto simp: loop_manager_def Let_def split: sum.splits)
    from generateSequence_frame [OF s2(1)] have "guessed s2 = guessed ?s1" "guess s2 = guess ?s1"
      by auto
    then show ?thesis using s2(2) u by simp
  next
    case False
    then show ?thesis
      using assms idle u
      by (auto simp: loop_manager_def Let_def increaseDifficulty_def displayDifficulty_def
            emit_def split: if_splits)
  qed
next
  case countdown
  then show ?thesis
    using assms by (auto simp: loop_manager_def sendGameStart_def alertBlink_def emit_def)
next
  case playing
  then show ?thesis
    using assms treatGuess_keeps_guess [of "displayDifficulty s" s']
    by (auto simp: loop_manager_def displayDifficulty_def emit_def Let_def split: if_splits)
next
  case game_over
  then show ?thesis
    using assms by (auto simp: loop_manager_def alertBlink_def emit_def)
qed

text \<open>
  C10. In the manager, once \<open>guessed\<close> is set no handler clears it: after every
  step that returns, \<open>guessed\<close> still holds, and unless the step is a new reception the
  stored \<open>guess\<close> is the same byte. So every iteration of the loop in \<open>playing\<close> calls
  \<open>treatGuess\<close> on the stored guess again. The witness runs one reception followed by
  three iterations of the loop: the one received guess advances the cursor three
  times and wins the game.
\<close>

theorem guessed_never_cleared:
  assumes "guessed s"
  shows "(\<forall>e s'. step_manager e s = Inr s' \<longrightarrow>
            guessed s' \<and> (case e of Recv incomingData \<Rightarrow> True | _ \<Rightarrow> guess s' = guess s)) \<and>
         (state s = playing \<longrightarrow>
            loop_manager now pin rnd s = treatGuess (displayDifficulty s))"
proof (intro conjI allI impI)
  fix e s' assume st: "step_manager e s = Inr s'"
  show "guessed s'"
  proof (cases e)
    case (Loop now pin rnd)
    then show ?thesis using st assms loop_manager_keeps_guess [of now pin rnd s s'] by simp
  next
    case (Recv incomingData)
    then show ?thesis
      using st assms by (auto simp: onDataRecv_manager_def split: if_splits list.splits)
  next
    case (ButtonEdge currentMillis)
    then show ?thesis using st assms by (auto simp: onButtonPress_manager_def split: if_splits)
  next
    case (SendDone success)
    then show ?thesis using st assms by (auto simp: onDataSent_manager_def emit_def)
  qed
  show "case e of Recv incomingData \<Rightarrow> True | _ \<Rightarrow> guess s' = guess s"
  proof (cases e)
    case (Loop now pin rnd)
    then show ?thesis using st loop_manager_keeps_guess [of now pin rnd s s'] by simp
  next
    case (Recv incomingData)
    then show ?thesis by simp
  next
    case (ButtonEdge currentMillis)
    then show ?thesis using st by (auto simp: onButtonPress_manager_def split: if_splits)
  next
    case (SendDone success)
    then show ?thesis using st by (auto simp: onDataSent_manager_def emit_def)
  qed
next
  assume "state s = playing"
  then show "loop_manager now pin rnd s = treatGuess (displayDifficulty s)"
    using assms by (rule loop_manager_playing)
qed

theorem guessed_never_cleared_witness:
  "guessed (playing_111\<lparr>guessed := True, guess := 1\<rparr>) \<and>
   onDataRecv_manager [1] playing_111 = Inr (playing_111\<lparr>guessed := True, guess := 1\<rparr>) \<and>
   loop_manager 0 True (\<lambda>i. 0) (playing_111\<lparr>guessed := True, guess := 1\<rparr>) =
     treatGuess (displayDifficulty (playing_111\<lparr>guessed := True, guess := 1\<rparr>)) \<and>
   (\<exists>s'. run_manager [Recv [1], Loop 0 True (\<lambda>i. 0), Loop 1 True (\<lambda>i. 0), Loop 2 True (\<lambda>i. 0)]
            playing_111 = Inr s' \<and>
          sent (trace s') = [CMD_GOOD_GUESS, CMD_GOOD_GUESS, CMD_GAME_WON] \<and>
          currentStep s' = 3 \<and> state s' = game_over \<and> guessed s')"
proof -
  let ?s = "playing_111\<lparr>guessed := True, guess := 1\<rparr>"
  have g: "guessed ?s" by simp
  have p: "state ?s = playing" by (simp add: playing_111_def)
  from guessed_never_cleared [OF g, of 0 True "\<lambda>i. 0"] p
  have l: "loop_manager 0 True (\<lambda>i. 0) ?s = treatGuess (displayDifficulty ?s)"
    by blast
  have r: "onDataRecv_manager [1] playing_111 = Inr ?s"
    by (simp add: onDataRecv_manager_def playing_111_def)
  have "\<exists>s'. run_manager [Recv [1], Loop 0 True (\<lambda>i. 0), Loop 1 True (\<lambda>i. 0), Loop 2 True (\<lambda>i. 0)]
            playing_111 = Inr s' \<and>
          sent (trace s') = [CMD_GOOD_GUESS, CMD_GOOD_GUESS, CMD_GAME_WON] \<and>
          currentStep s' = 3 \<and> state s' = game_over \<and> guessed s'"
    by (simp add: onDataRecv_manager_def playing_111_def init_manager_def loop_manager_def
          treatGuess_def seq_read_def displayDifficulty_def emit_def Let_def
          maxSequenceLength_def)
  with g l r show ?thesis by blast
qed

section \<open>The difficulty of the manager\<close>

text \<open>
  In the manager the difficulty changes only in one way: an iteration of the
  loop in \<open>idle\<close> replaces it by its successor modulo 16. The flag \<open>difficultyLocked\<close> is
  never set: it is clear initially and no handler assigns \<open>true\<close> to it.
\<close>

lemma difficulty_change_manager:
  assumes "step_manager e s = Inr s'" "difficulty s' \<noteq> difficulty s"
  shows "state s = idle \<and> (\<exists>now pin rnd. e = Loop now pin rnd) \<and>
         difficulty s' = of_nat ((unat (difficulty s) + 1) mod 16)"
proof (cases e)
  case (Loop now pin rnd)
  show ?thesis
  proof (cases "state s")
    case idle
    let ?s1 = "updateButtonState now pin s"
    have u: "difficulty ?s1 = difficulty s"
      by (simp add: updateButtonState_def emit_def)
    show ?thesis
    proof (cases "buttonInter s \<and> longPressed ?s1")
      case True
      then obtain s2 where s2: "generateSequence rnd ?s1 = Inr s2"
        "s' = s2\<lparr>state := countdown, longPressed := False, buttonInter := False\<rparr>"
        using assms(1) Loop idle by (auto simp: loop_manager_def Let_def split: sum.splits)
      from generateSequence_frame [OF s2(1)] have "difficulty s2 = difficulty ?s1" by auto
      then show ?thesis using s2(2) u assms(2) by simp
    next
      case False
      then show ?thesis
        using assms Loop idle u
        by (auto simp: loop_manager_def Let_def increaseDifficulty_def displayDifficulty_def
              emit_def split: if_splits)
    qed
  next
    case countdown
    then show ?thesis
      using assms Loop by (auto simp: loop_manager_def sendGameStart_def alertBlink_def emit_def)
  next
    case playing
    then show ?thesis
      using assms Loop
      by (auto simp: loop_manager_def treatGuess_def seq_read_def displayDifficulty_def emit_def
            Let_def split: if_splits)
  next
    case game_over
    then show ?thesis
      using assms Loop by (auto simp: loop_manager_def alertBlink_def emit_def)
  qed
next
  case (Recv incomingData)
  then show ?thesis
    using assms by (auto simp: onDataRecv_manager_def split: if_splits list.splits)
next
  case (ButtonEdge currentMillis)
  then show ?thesis using assms by (auto simp: onButtonPress_manager_def split: if_splits)
next
  case (SendDone success)
  then show ?thesis using assms by (auto simp: onDataSent_manager_def emit_def)
qed

lemma difficultyLocked_never_set:
  assumes "step_manager e s = Inr s'" "\<not> difficultyLocked s"
  shows "\<not> difficultyLocked s'"
proof (cases e)
  case (Loop now pin rnd)
  show ?thesis
  proof (cases "state s")
    case idle
    let ?s1 = "updateButtonState now pin s"
    have u: "difficultyLocked ?s1 = difficultyLocked s"
      by (simp add: updateButtonState_def emit_def)
    show ?thesis
    proof (cases "buttonInter s \<and> longPressed ?s1")
      case True
      then obtain s2 where s2: "generateSequence rnd ?s1 = Inr s2"
        "s' = s2\<lparr>state := countdown, longPressed := False, buttonInter := False\<rparr>"
        using assms(1) Loop idle by (auto simp: loop_manager_def Let_def split: sum.splits)
      from generateSequence_frame [OF s2(1)] have "difficultyLocked s2 = difficultyLocked ?s1"
        by auto
      then show ?thesis using s2(2) u assms(2) by simp
    next
      case False
      then show ?thesis
        using assms Loop idle u
        by (auto simp: loop_manager_def Let_def increaseDifficulty_def displayDifficulty_def
              emit_def split: if_splits)
    qed
  next
    case countdown
    then show ?thesis
      using assms Loop by (auto simp: loop_manager_def sendGameStart_def alertBlink_def emit_def)
  next
    case playing
    then show ?thesis
      using assms Loop
      by (auto simp: loop_manager_def treatGuess_def seq_read_def displayDifficulty_def emit_def
            Let_def split: if_splits)
  next
    case game_over
    then show ?thesis
      using assms Loop by (auto simp: loop_manager_def alertBlink_def emit_def)
  qed
next
  case (Recv incomingData)
  then show ?thesis
    using assms by (auto simp: onDataRecv_manager_def split: if_splits list.splits)
next
  case (ButtonEdge currentMillis)
  then show ?thesis using assms by (auto simp: onButtonPress_manager_def split: if_splits)
next
  case (SendDone success)
  then show ?thesis using assms by (auto simp: onDataSent_manager_def emit_def)
qed

section \<open>The send callback of the remote\<close>

lemma concat_replicate_5: "concat (replicate 5 [a, b]) = [a, b, a, b, a, b, a, b, a, b]"
  by (simp add: eval_nat_numeral)

lemma retry_loop_fail:
  "retry_loop False 0 s =
     (6, s\<lparr>trace_r := trace_r s @ concat (replicate 5 [Send (lastSentMessage s), Delay 100])\<rparr>)"
  by (simp add: retry_loop.simps emit_r_def concat_replicate_5)

lemma retry_loop_success: "retry_loop True 0 s = (0, s)"
  by (simp add: retry_loop.simps)

lemma retry_loop_p1_fail:
  "retry_loop_p1 False 0 s =
     (6, s\<lparr>trace_p1 := trace_p1 s @ concat (replicate 5 [Send (lastSentMessage_p1 s), Delay 100])\<rparr>)"
  by (simp add: retry_loop_p1.simps emit_p1_def concat_replicate_5)

lemma retry_loop_p1_success: "retry_loop_p1 True 0 s = (0, s)"
  by (simp add: retry_loop_p1.simps)

text \<open>
  C4. Claim: after a failed send the remote retries the last byte up to 5 times, 100 ms
  apart, then gives up and logs the failure, and the game state is not altered. The
  code resends \<open>lastSentMessage\<close> five times with \<open>delay(100)\<close> after each, and changes
  nothing but the trace. It does not log that it gave up: the loop leaves \<open>retries\<close> at
  6 (the failing test \<open>retries++ < 5\<close> increments once more), so the test
  \<open>retries == 5\<close> that guards the message "Failed to send after 5 attempts" is false
  after a failure, and after a success \<open>retries\<close> is 0. The message is never printed.
  The only log is the status line printed before the first retry. The same text is in
  the remote and in its second revision.
\<close>

theorem onDataSent_never_logs_giving_up:
  "onDataSent_remote success s =
     s\<lparr>trace_r := trace_r s @
        (if success then [Print ''Last Packet Send Status: '', Print ''Success'']
         else [Print ''Last Packet Send Status: '', Print ''Fail''] @
              concat (replicate 5 [Send (lastSentMessage s), Delay 100]))\<rparr> \<and>
   onDataSent_p1 success s1 =
     s1\<lparr>trace_p1 := trace_p1 s1 @
        (if success then [Print ''Last Packet Send Status: '', Print ''Success'']
         else [Print ''Last Packet Send Status: '', Print ''Fail''] @
              concat (replicate 5 [Send (lastSentMessage_p1 s1), Delay 100]))\<rparr> \<and>
   fst (retry_loop False 0 s) = 6 \<and> fst (retry_loop_p1 False 0 s1) = 6"
  by (cases success)
     (simp_all add: onDataSent_remote_def onDataSent_p1_def retry_loop_fail retry_loop_success
        retry_loop_p1_fail retry_loop_p1_success emit_r_def emit_p1_def)

section \<open>The receive callbacks\<close>

text \<open>
  A payload whose length is not 1 is discarded by the remote (both revisions) and by
  the second revision of the manager.
\<close>

lemma onDataRecv_remote_length:
  "length incomingData \<noteq> 1 \<Longrightarrow> onDataRecv_remote incomingData s = s"
  by (simp add: onDataRecv_remote_def)

lemma onDataRecv_p1_length:
  "length incomingData \<noteq> 1 \<Longrightarrow> onDataRecv_p1 now incomingData s = s"
  by (simp add: onDataRecv_p1_def)

lemma onDataRecv_p0_length:
  "length incomingData \<noteq> 1 \<Longrightarrow> onDataRecv_p0 incomingData s = Inr s"
  by (simp add: onDataRecv_p0_def)

text \<open>
  C5. Claim: on both nodes a payload whose length is not 1 is discarded with no change
  of state. The receive callback of the manager never looks at \<open>len\<close>: in
  \<open>playing\<close> it stores the first byte of any non-empty payload as the guess and sets
  \<open>guessed\<close>. A payload of two bytes, 1 and 2, is taken as the guess 1.
\<close>

theorem onDataRecv_manager_ignores_length:
  "onDataRecv_manager (b # rest) (s\<lparr>state := playing\<rparr>) =
     Inr (s\<lparr>state := playing, guessed := True, guess := b\<rparr>) \<and>
   onDataRecv_manager [1, 2] (init_manager\<lparr>state := playing\<rparr>) \<noteq>
     Inr (init_manager\<lparr>state := playing\<rparr>)"
  by (simp add: onDataRecv_manager_def init_manager_def)

text \<open>
  C7. While \<open>locked\<close> is set, the receive callback of the remote returns the state it
  was given, whatever the payload: no command is recorded and nothing of the display
  state changes. This holds in the remote and in its second revision.
\<close>

theorem locked_remote_ignores_commands:
  assumes "locked s" "locked_p1 s1"
  shows "onDataRecv_remote incomingData s = s \<and> onDataRecv_p1 now incomingData s1 = s1"
  using assms by (simp add: onDataRecv_remote_def onDataRecv_p1_def)

theorem locked_remote_ignores_commands_witness:
  "locked (init_remote\<lparr>state_r := correct, locked := True\<rparr>) \<and>
   locked_p1 (init_remote_p1\<lparr>state_p1 := correct, locked_p1 := True\<rparr>) \<and>
   onDataRecv_remote [CMD_WRONG_GUESS] (init_remote\<lparr>state_r := correct, locked := True\<rparr>) =
     init_remote\<lparr>state_r := correct, locked := True\<rparr> \<and>
   onDataRecv_p1 7 [CMD_WRONG_GUESS] (init_remote_p1\<lparr>state_p1 := correct, locked_p1 := True\<rparr>) =
     init_remote_p1\<lparr>state_p1 := correct, locked_p1 := True\<rparr> \<and>
   onDataRecv_remote [CMD_WRONG_GUESS] (init_remote\<lparr>state_r := guessed_r\<rparr>) =
     init_remote\<lparr>state_r := guessed_r, wrongGuess := True\<rparr>"
proof -
  have h: "locked (init_remote\<lparr>state_r := correct, locked := True\<rparr>)"
    "locked_p1 (init_remote_p1\<lparr>state_p1 := correct, locked_p1 := True\<rparr>)"
    by simp_all
  have "onDataRecv_remote [CMD_WRONG_GUESS] (init_remote\<lparr>state_r := guessed_r\<rparr>) =
          init_remote\<lparr>state_r := guessed_r, wrongGuess := True\<rparr>"
    by (simp add: onDataRecv_remote_def init_remote_def CMD_WRONG_GUESS_def CMD_GAME_START_def
          CMD_GOOD_GUESS_def)
  with h locked_remote_ignores_commands [OF h, of "[CMD_WRONG_GUESS]" 7]
  show ?thesis by simp
qed

section \<open>The timed displays of the remote\<close>

text \<open>
  The remote: \<open>correct\<close> and \<open>wrong\<close> keep their LED on while at most 2000 ms
  have passed since the state was entered; the first iteration after that switches the
  LED off, clears \<open>locked\<close> and returns to \<open>playing\<close>. \<open>won\<close> blinks while at most
  10000 ms have passed; the first iteration after that switches both LEDs off, clears
  \<open>locked\<close> and returns to \<open>ready\<close>.
\<close>

lemma loop_remote_correct:
  "state_r s = correct \<Longrightarrow>
   loop_remote now pwm send_ok s =
     (if now - lastStateUpdate s > 2000
      then s\<lparr>state_r := playing_r, lastStateUpdate := now, locked := False,
             trace_r := trace_r s @ [DigitalWrite greenLed True, DigitalWrite greenLed False]\<rparr>
      else s\<lparr>trace_r := trace_r s @ [DigitalWrite greenLed True]\<rparr>)"
  by (simp add: loop_remote_def emit_r_def Let_def)

lemma loop_remote_wrong:
  "state_r s = wrong \<Longrightarrow>
   loop_remote now pwm send_ok s =
     (if now - lastStateUpdate s > 2000
      then s\<lparr>state_r := playing_r, lastStateUpdate := now, locked := False,
             trace_r := trace_r s @ [DigitalWrite redLed True, DigitalWrite redLed False]\<rparr>
      else s\<lparr>trace_r := trace_r s @ [DigitalWrite redLed True]\<rparr>)"
  by (simp add: loop_remote_def emit_r_def Let_def)

lemma loop_remote_won:
  "state_r s = won \<Longrightarrow>
   loop_remote now pwm send_ok s =
     (if now - lastStateUpdate s > 10000
      then s\<lparr>state_r := ready, locked := False,
             trace_r := trace_r s @
               [DigitalWrite redLed (now mod 2000 < 1000),
                DigitalWrite greenLed (now mod 2000 < 1000),
                Print ''Waiting for a new game start signal.'',
                DigitalWrite greenLed False, DigitalWrite redLed False]\<rparr>
      else s\<lparr>trace_r := trace_r s @
               [DigitalWrite redLed (now mod 2000 < 1000),
                DigitalWrite greenLed (now mod 2000 < 1000)]\<rparr>)"
  by (simp add: loop_remote_def emit_r_def Let_def)

text \<open>The second revision does the same in \<open>wrong\<close> and \<open>won\<close>.\<close>

lemma loop_p1_wrong:
  "state_p1 s = wrong \<Longrightarrow>
   loop_p1 now pwm send_ok s =
     (if now - lastStateUpdate_p1 s > 2000
      then s\<lparr>state_p1 := playing_r, locked_p1 := False,
             trace_p1 := trace_p1 s @ [DigitalWrite redLed True, DigitalWrite redLed False]\<rparr>
      else s\<lparr>trace_p1 := trace_p1 s @ [DigitalWrite redLed True]\<rparr>)"
  by (simp add: loop_p1_def emit_p1_def Let_def)

lemma loop_p1_won:
  "state_p1 s = won \<Longrightarrow>
   loop_p1 now pwm send_ok s =
     (if now - lastStateUpdate_p1 s > 10000
      then s\<lparr>state_p1 := ready, locked_p1 := False,
             trace_p1 := trace_p1 s @
               [DigitalWrite redLed (now mod 2000 < 1000),
                DigitalWrite greenLed (now mod 2000 < 1000),
                DigitalWrite greenLed False, DigitalWrite redLed False]\<rparr>
      else s\<lparr>trace_p1 := trace_p1 s @
               [DigitalWrite redLed (now mod 2000 < 1000),
                DigitalWrite greenLed (now mod 2000 < 1000)]\<rparr>)"
  by (simp add: loop_p1_def emit_p1_def Let_def)

text \<open>
  In the second revision the \<open>correct\<close> case returns to \<open>playing\<close> without the
  assignment \<open>locked = false\<close> that its \<open>wrong\<close> and \<open>won\<close> cases have. That revision's
  \<open>setup()\<close> registers only the send callback (the registration of the receive callback
  is in a function that is never called), so its state does not leave \<open>ready\<close> and the
  case is not reached.
\<close>

lemma loop_p1_correct:
  "state_p1 s = correct \<Longrightarrow>
   loop_p1 now pwm send_ok s =
     (if now - lastStateUpdate_p1 s > 2000
      then s\<lparr>state_p1 := playing_r,
             trace_p1 := trace_p1 s @ [DigitalWrite greenLed True, DigitalWrite greenLed False]\<rparr>
      else s\<lparr>trace_p1 := trace_p1 s @ [DigitalWrite greenLed True]\<rparr>)"
  by (simp add: loop_p1_def emit_p1_def Let_def)

text \<open>
  C8. The remote of \<open>main.cpp\<close>. The loop enters \<open>correct\<close>, \<open>wrong\<close> or \<open>won\<close> from
  \<open>guessed\<close> when the matching reply has been received; it then records the clock in
  \<open>lastStateUpdate\<close> and sets \<open>locked\<close>. In \<open>correct\<close> (green LED) and in \<open>wrong\<close> (red
  LED) every iteration switches the LED on; while no more than 2000 ms have passed since
  the state was entered nothing else changes, and the first iteration after that
  switches the LED off, clears \<open>locked\<close> and returns to \<open>playing\<close>. In \<open>won\<close> every
  iteration drives both LEDs with the blink pattern (on during the first half of every
  2000 ms); while no more than 10000 ms have passed nothing else changes, and the first
  iteration after that switches both LEDs off, clears \<open>locked\<close> and returns to \<open>ready\<close>.
\<close>

theorem timed_displays_remote:
  "(state_r s = guessed_r \<and> wonSignal s \<longrightarrow>
      loop_remote now pwm send_ok s =
        s\<lparr>wonSignal := False, state_r := won, lastStateUpdate := now, locked := True,
          trace_r := trace_r s @ [Print ''Game won !'']\<rparr>) \<and>
   (state_r s = guessed_r \<and> \<not> wonSignal s \<and> rightGuess s \<longrightarrow>
      loop_remote now pwm send_ok s =
        s\<lparr>rightGuess := False, state_r := correct, lastStateUpdate := now, locked := True,
          trace_r := trace_r s @ [Print ''Right guess !'']\<rparr>) \<and>
   (state_r s = guessed_r \<and> \<not> wonSignal s \<and> \<not> rightGuess s \<and> wrongGuess s \<longrightarrow>
      loop_remote now pwm send_ok s =
        s\<lparr>wrongGuess := False, state_r := wrong, lastStateUpdate := now, locked := True,
          trace_r := trace_r s @ [Print ''Wrong guess !'']\<rparr>) \<and>
   (state_r s = correct \<longrightarrow>
      loop_remote now pwm send_ok s =
        (if now - lastStateUpdate s > 2000
         then s\<lparr>state_r := playing_r, lastStateUpdate := now, locked := False,
                trace_r := trace_r s @ [DigitalWrite greenLed True, DigitalWrite greenLed False]\<rparr>
         else s\<lparr>trace_r := trace_r s @ [DigitalWrite greenLed True]\<rparr>)) \<and>
   (state_r s = wrong \<longrightarrow>
      loop_remote now pwm send_ok s =
        (if now - lastStateUpdate s > 2000
         then s\<lparr>state_r := playing_r, lastStateUpdate := now, locked := False,
                trace_r := trace_r s @ [DigitalWrite redLed True, DigitalWrite redLed False]\<rparr>
         else s\<lparr>trace_r := trace_r s @ [DigitalWrite redLed True]\<rparr>)) \<and>
   (state_r s = won \<longrightarrow>
      loop_remote now pwm send_ok s =
        (if now - lastStateUpdate s > 10000
         then s\<lparr>state_r := ready, locked := False,
                trace_r := trace_r s @
                  [DigitalWrite redLed (now mod 2000 < 1000),
                   DigitalWrite greenLed (now mod 2000 < 1000),
                   Print ''Waiting for a new game start signal.'',
                   DigitalWrite greenLed False, DigitalWrite redLed False]\<rparr>
         else s\<lparr>trace_r := trace_r s @
                  [DigitalWrite redLed (now mod 2000 < 1000),
                   DigitalWrite greenLed (now mod 2000 < 1000)]\<rparr>))"
  using loop_remote_correct [of s now pwm send_ok] loop_remote_wrong [of s now pwm send_ok]
    loop_remote_won [of s now pwm send_ok]
  by (auto simp: loop_remote_def emit_r_def)

text \<open>
  From power-up: each reply, taken up at clock 1000, leads to its display state with
  \<open>locked\<close> set. After GOOD_GUESS and after WRONG_GUESS the iteration at clock 3000
  (2000 ms later) still shows the LED, locked, and the iteration at clock 3001 is back
  in \<open>playing\<close>, unlocked. After GAME_WON the iteration at clock 11000 still blinks,
  locked, and the iteration at clock 11001 is back in \<open>ready\<close>, unlocked.
\<close>

theorem timed_displays_remote_witness:
  "state_r guess_sent = guessed_r \<and>
   state_r (after_reply CMD_GOOD_GUESS) = correct \<and> locked (after_reply CMD_GOOD_GUESS) \<and>
   lastStateUpdate (after_reply CMD_GOOD_GUESS) = 1000 \<and>
   state_r (loop_remote 3000 (0, 0) (\<lambda>i. True) (after_reply CMD_GOOD_GUESS)) = correct \<and>
   locked (loop_remote 3000 (0, 0) (\<lambda>i. True) (after_reply CMD_GOOD_GUESS)) \<and>
   state_r (loop_remote 3001 (0, 0) (\<lambda>i. True) (after_reply CMD_GOOD_GUESS)) = playing_r \<and>
   \<not> locked (loop_remote 3001 (0, 0) (\<lambda>i. True) (after_reply CMD_GOOD_GUESS)) \<and>
   state_r (after_reply CMD_WRONG_GUESS) = wrong \<and> locked (after_reply CMD_WRONG_GUESS) \<and>
   state_r (loop_remote 3000 (0, 0) (\<lambda>i. True) (after_reply CMD_WRONG_GUESS)) = wrong \<and>
   locked (loop_remote 3000 (0, 0) (\<lambda>i. True) (after_reply CMD_WRONG_GUESS)) \<and>
   state_r (loop_remote 3001 (0, 0) (\<lambda>i. True) (after_reply CMD_WRONG_GUESS)) = playing_r \<and>
   \<not> locked (loop_remote 3001 (0, 0) (\<lambda>i. True) (after_reply CMD_WRONG_GUESS)) \<and>
   state_r (after_reply CMD_GAME_WON) = won \<and> locked (after_reply CMD_GAME_WON) \<and>
   state_r (loop_remote 11000 (0, 0) (\<lambda>i. True) (after_reply CMD_GAME_WON)) = won \<and>
   locked (loop_remote 11000 (0, 0) (\<lambda>i. True) (after_reply CMD_GAME_WON)) \<and>
   state_r (loop_remote 11001 (0, 0) (\<lambda>i. True) (after_reply CMD_GAME_WON)) = ready \<and>
   \<not> locked (loop_remote 11001 (0, 0) (\<lambda>i. True) (after_reply CMD_GAME_WON))"
proof -
  have g: "state_r guess_sent = guessed_r" "\<not> locked guess_sent" "\<not> wonSignal guess_sent"
    "\<not> rightGuess guess_sent" "\<not> wrongGuess guess_sent"
    by (simp_all add: guess_sent_def init_remote_def loop_remote_def onDataRecv_remote_def
          onButton1Press_def onButtonPress_remote_def playing_button_def sendButtonPress_def
          breatheLeds_def emit_r_def buttonsCount_def debounceDelay_remote_def Let_def)
  let ?good = "onDataRecv_remote [CMD_GOOD_GUESS] guess_sent"
  let ?bad = "onDataRecv_remote [CMD_WRONG_GUESS] guess_sent"
  let ?win = "onDataRecv_remote [CMD_GAME_WON] guess_sent"
  have r: "state_r ?good = guessed_r" "\<not> wonSignal ?good" "rightGuess ?good"
    "state_r ?bad = guessed_r" "\<not> wonSignal ?bad" "\<not> rightGuess ?bad" "wrongGuess ?bad"
    "state_r ?win = guessed_r" "wonSignal ?win"
    using g
    by (simp_all add: onDataRecv_remote_def CMD_GAME_START_def CMD_GOOD_GUESS_def
          CMD_WRONG_GUESS_def CMD_GAME_WON_def)
  have good: "state_r (after_reply CMD_GOOD_GUESS) = correct" "locked (after_reply CMD_GOOD_GUESS)"
    "lastStateUpdate (after_reply CMD_GOOD_GUESS) = 1000"
    using timed_displays_remote [of ?good 1000 "(0, 0)" "\<lambda>i. True"] r
    by (simp_all add: after_reply_def)
  have bad: "state_r (after_reply CMD_WRONG_GUESS) = wrong" "locked (after_reply CMD_WRONG_GUESS)"
    "lastStateUpdate (after_reply CMD_WRONG_GUESS) = 1000"
    using timed_displays_remote [of ?bad 1000 "(0, 0)" "\<lambda>i. True"] r
    by (simp_all add: after_reply_def)
  have win: "state_r (after_reply CMD_GAME_WON) = won" "locked (after_reply CMD_GAME_WON)"
    "lastStateUpdate (after_reply CMD_GAME_WON) = 1000"
    using timed_displays_remote [of ?win 1000 "(0, 0)" "\<lambda>i. True"] r
    by (simp_all add: after_reply_def)
  have "state_r (loop_remote 3000 (0, 0) (\<lambda>i. True) (after_reply CMD_GOOD_GUESS)) = correct"
    "locked (loop_remote 3000 (0, 0) (\<lambda>i. True) (after_reply CMD_GOOD_GUESS))"
    using timed_displays_remote [of "after_reply CMD_GOOD_GUESS" 3000 "(0, 0)" "\<lambda>i. True"] good
    by simp_all
  moreover
  have "state_r (loop_remote 3001 (0, 0) (\<lambda>i. True) (after_reply CMD_GOOD_GUESS)) = playing_r"
    "\<not> locked (loop_remote 3001 (0, 0) (\<lambda>i. True) (after_reply CMD_GOOD_GUESS))"
    using timed_displays_remote [of "after_reply CMD_GOOD_GUESS" 3001 "(0, 0)" "\<lambda>i. True"] good
    by simp_all
  moreover
  have "state_r (loop_remote 3000 (0, 0) (\<lambda>i. True) (after_reply CMD_WRONG_GUESS)) = wrong"
    "locked (loop_remote 3000 (0, 0) (\<lambda>i. True) (after_reply CMD_WRONG_GUESS))"
    using timed_displays_remote [of "after_reply CMD_WRONG_GUESS" 3000 "(0, 0)" "\<lambda>i. True"] bad
    by simp_all
  moreover
  have "state_r (loop_remote 3001 (0, 0) (\<lambda>i. True) (after_reply CMD_WRONG_GUESS)) = playing_r"
    "\<not> locked (loop_remote 3001 (0, 0) (\<lambda>i. True) (after_reply CMD_WRONG_GUESS))"
    using timed_displays_remote [of "after_reply CMD_WRONG_GUESS" 3001 "(0, 0)" "\<lambda>i. True"] bad
    by simp_all
  moreover
  have "state_r (loop_remote 11000 (0, 0) (\<lambda>i. True) (after_reply CMD_GAME_WON)) = won"
    "locked (loop_remote 11000 (0, 0) (\<lambda>i. True) (after_reply CMD_GAME_WON))"
    using timed_displays_remote [of "after_reply CMD_GAME_WON" 11000 "(0, 0)" "\<lambda>i. True"] win
    by simp_all
  moreover
  have "state_r (loop_remote 11001 (0, 0) (\<lambda>i. True) (after_reply CMD_GAME_WON)) = ready"
    "\<not> locked (loop_remote 11001 (0, 0) (\<lambda>i. True) (after_reply CMD_GAME_WON))"
    using timed_displays_remote [of "after_reply CMD_GAME_WON" 11001 "(0, 0)" "\<lambda>i. True"] win
    by simp_all
  ultimately show ?thesis using g(1) good bad(1,2) win(1,2) by simp
qed

section \<open>The difficulty of the second revision of the manager\<close>

lemma generateSequence_loop_p0_frame:
  "generateSequence_loop_p0 rnd i s = Inr s' \<Longrightarrow> \<exists>xs. s' = s\<lparr>sequence_p0 := xs\<rparr>"
proof (induction rnd i s rule: generateSequence_loop_p0.induct)
  case (1 rnd i s)
  show ?case
  proof (cases "i \<le> unat (difficulty_p0 s)")
    case True
    let ?v = "word_of_int (random_long (rnd i) 1 4) :: u8"
    let ?s' = "s\<lparr>sequence_p0 := (sequence_p0 s)[i := ?v]\<rparr>"
    from "1.prems" True have lt: "i < maxSequenceLength"
      by (subst (asm) generateSequence_loop_p0.simps) (auto simp: seq_write_p0_def split: if_splits)
    then have w: "seq_write_p0 i ?v s = Inr ?s'" by (simp add: seq_write_p0_def)
    from "1.prems" True w have "generateSequence_loop_p0 rnd (Suc i) ?s' = Inr s'"
      by (subst (asm) generateSequence_loop_p0.simps) simp
    from "1.IH" [OF True w this] obtain xs where "s' = ?s'\<lparr>sequence_p0 := xs\<rparr>" by blast
    then have "s' = s\<lparr>sequence_p0 := xs\<rparr>" by simp
    then show ?thesis by blast
  next
    case False
    with "1.prems" have "s' = s"
      by (subst (asm) generateSequence_loop_p0.simps) simp
    then have "s' = s\<lparr>sequence_p0 := sequence_p0 s\<rparr>" by simp
    then show ?thesis by blast
  qed
qed

lemma generateSequence_p0_frame:
  "generateSequence_p0 rnd s = Inr s' \<Longrightarrow>
   \<exists>xs. s' = s\<lparr>sequence_p0 := xs, currentStep_p0 := 0,
                 trace_p0 := trace_p0 s @ [Print ''Generating random sequence'']\<rparr>"
proof -
  assume a: "generateSequence_p0 rnd s = Inr s'"
  let ?s0 = "emit_p0 [Print ''Generating random sequence''] s"
  from a obtain s1 where s1: "generateSequence_loop_p0 rnd 0 ?s0 = Inr s1"
    "s' = s1\<lparr>currentStep_p0 := 0\<rparr>"
    by (auto simp: generateSequence_p0_def split: sum.splits)
  from generateSequence_loop_p0_frame [OF s1(1)] obtain xs where "s1 = ?s0\<lparr>sequence_p0 := xs\<rparr>"
    by blast
  with s1(2) have "s' = s\<lparr>sequence_p0 := xs, currentStep_p0 := 0,
                           trace_p0 := trace_p0 s @ [Print ''Generating random sequence'']\<rparr>"
    by (simp add: emit_p0_def)
  then show ?thesis by blast
qed

text \<open>
  In the second revision of the manager too the difficulty only ever becomes its successor modulo 16,
  and only while \<open>difficultyLocked\<close> is clear. The state is not consulted.
\<close>

lemma processPress_p0_difficulty:
  "difficulty_p0 (processPress_p0 s) \<noteq> difficulty_p0 s \<Longrightarrow>
   \<not> difficultyLocked_p0 s \<and>
   difficulty_p0 (processPress_p0 s) = of_nat ((unat (difficulty_p0 s) + 1) mod 16)"
  by (auto simp: processPress_p0_def displayDifficulty_p0_def emit_p0_def Let_def
        split: if_splits)

lemma difficulty_change_p0:
  assumes "step_p0 e s = Inr s'" "difficulty_p0 s' \<noteq> difficulty_p0 s"
  shows "\<not> difficultyLocked_p0 s \<and> (\<exists>rnd. e = Loop_p0 rnd) \<and>
         difficulty_p0 s' = of_nat ((unat (difficulty_p0 s) + 1) mod 16)"
proof (cases e)
  case (Loop_p0 rnd)
  let ?s1 = "processPress_p0 s"
  have "difficulty_p0 s' = difficulty_p0 ?s1"
  proof (cases "state_p0 ?s1 = idle \<and> longPressDetected_p0 ?s1")
    case True
    then obtain s2 where s2: "generateSequence_p0 rnd ?s1 = Inr s2"
      "s' = (sendGameStart_p0 s2)\<lparr>state_p0 := countdown, longPressDetected_p0 := False\<rparr>"
      using assms(1) Loop_p0 by (auto simp: loop_p0_def Let_def split: sum.splits)
    from generateSequence_p0_frame [OF s2(1)] have "difficulty_p0 s2 = difficulty_p0 ?s1"
      by auto
    then show ?thesis using s2(2) by (simp add: sendGameStart_p0_def emit_p0_def)
  next
    case False
    then show ?thesis
      using assms(1) Loop_p0
      by (cases "state_p0 ?s1")
         (auto simp: loop_p0_def Let_def countdownBlink_p0_def displayDifficulty_p0_def
            emit_p0_def)
  qed
  then show ?thesis
    using assms(2) processPress_p0_difficulty [of s] Loop_p0 by simp
next
  case (Recv_p0 incomingData)
  then show ?thesis
    using assms
    by (auto simp: onDataRecv_p0_def seq_read_p0_def emit_p0_def Let_def
          split: if_splits list.splits)
next
  case (ButtonEdge_p0 now pin)
  then show ?thesis using assms by (auto simp: onButtonPress_p0_def split: if_splits)
next
  case (SendDone_p0 success)
  then show ?thesis using assms by (auto simp: onDataSent_p0_def emit_p0_def)
qed

text \<open>
  C6. Claim: the difficulty changes only by an increment modulo 16, accepted only in
  \<open>idle\<close> with the difficulty unlocked, and it is immutable during a game. The manager
  of \<open>main.cpp\<close> increments only in the \<open>idle\<close> case of its loop, and its lock flag is
  never set (\<open>difficulty_change_manager\<close>, \<open>difficultyLocked_never_set\<close>). The second
  revision guards the increment by the lock alone, and the lock does not cover every
  game: a long press made during play leaves \<open>longPressDetected\<close> set; \<open>game_over\<close>
  clears the lock and returns to \<open>idle\<close>; the next iteration starts a new game from
  the stale flag without setting the lock. After the run \<open>second_game_p0\<close> the manager
  is in \<open>playing\<close>, unlocked, at difficulty 0, with a short press pending, and the
  next iteration of the loop raises the difficulty to 1 in the middle of the game. The
  sequence of that game has one symbol, 1; the guess 1 is then answered GOOD_GUESS
  instead of GAME_WON.
\<close>

theorem difficulty_changes_during_game_p0:
  "\<exists>s. run_p0 second_game_p0 init_manager_p0 = Inr s \<and>
        state_p0 s = playing \<and> \<not> difficultyLocked_p0 s \<and> difficulty_p0 s = 0 \<and>
        (\<exists>s'. loop_p0 (\<lambda>i. 0) s = Inr s' \<and> state_p0 s' = playing \<and> difficulty_p0 s' = 1 \<and>
           (\<exists>s''. step_p0 (Recv_p0 [1]) s' = Inr s'' \<and> state_p0 s'' = playing \<and>
              sent (trace_p0 s'') = sent (trace_p0 s') @ [CMD_GOOD_GUESS]))"
  by (simp add: second_game_p0_def init_manager_p0_def loop_p0_def processPress_p0_def
        onButtonPress_p0_def onDataRecv_p0_def generateSequence_p0_def
        generateSequence_loop_p0.simps seq_write_p0_def seq_read_p0_def sendGameStart_p0_def
        countdownBlink_p0_def displayDifficulty_p0_def emit_p0_def longPressDuration_def
        maxSequenceLength_def random_long_def Let_def sent_append)

end
